theory Spec2Isabelle
  imports Complex_Main
begin

section \<open>Data model\<close>

text \<open>
  The layout controller \<^verbatim>\<open>ForceSimulation\<close> (ForceSimulation.ts) works on three kinds of
  collaborator objects whose declarations are imported from other modules:
  \<^verbatim>\<open>NodeModel\<close>, \<^verbatim>\<open>RelationshipModel\<close> and \<^verbatim>\<open>GraphModel\<close>.  JavaScript numbers are
  idealised as real numbers.
\<close>

type_synonym node_id = string

text \<open>
  Modelled from the spec: \<^verbatim>\<open>models/Node\<close> is imported by ForceSimulation.ts but its
  declaration is not among the sources.  Section 3: a node has a unique identifier, a
  current position (x, y) and a current velocity (vx, vy); its payload is opaque to the
  layout.  The fields \<^verbatim>\<open>id\<close>, \<^verbatim>\<open>x\<close>, \<^verbatim>\<open>y\<close> are written \<open>nid\<close>, \<open>px\<close>, \<open>py\<close>.
\<close>

record NodeModel =
  nid :: node_id
  px :: real
  py :: real
  vx :: real
  vy :: real

text \<open>
  Modelled from the spec: \<^verbatim>\<open>models/Relationship\<close> is not among the sources.  Section 3:
  a relationship identifies a source node id and a target node id; the payload is opaque
  (kept here as \<open>rel_id\<close>, which tells parallel relationships apart).
\<close>

record RelationshipModel =
  rel_id :: string
  source :: node_id
  target :: node_id

text \<open>
  Modelled from the spec: the element type of \<^verbatim>\<open>graph.groupedRelationships()\<close>.  The
  source reads only \<^verbatim>\<open>pair.relationships\<close>; section 6: a group of parallel relationships
  keyed by an unordered endpoint pair.
\<close>

record NodePair =
  nodeA :: node_id
  nodeB :: node_id
  relationships :: "RelationshipModel list"

text \<open>
  Modelled from the spec: \<^verbatim>\<open>models/Graph\<close> is not among the sources.  Section 6: the
  graph offers a node accessor returning the current ordered node list, and a
  pair-grouping accessor.
\<close>

record GraphModel =
  graph_nodes :: "NodeModel list"
  graph_relationships :: "RelationshipModel list"

definition nodes :: "GraphModel \<Rightarrow> NodeModel list" where
  "nodes graph = graph_nodes graph"

subsection \<open>Grouping parallel relationships\<close>

definition endpoints :: "RelationshipModel \<Rightarrow> node_id set" where
  "endpoints r = {source r, target r}"

definition pair_key :: "NodePair \<Rightarrow> node_id set" where
  "pair_key p = {nodeA p, nodeB p}"

definition same_pair :: "NodePair \<Rightarrow> RelationshipModel \<Rightarrow> bool" where
  "same_pair p r =
     ((nodeA p = source r \<and> nodeB p = target r) \<or> (nodeA p = target r \<and> nodeB p = source r))"

text \<open>
  Modelled from the spec: \<^verbatim>\<open>GraphModel.groupedRelationships\<close> is not among the sources.
  Section 6: it returns groups of parallel relationships keyed by unordered endpoint
  pair.  Each relationship, in order, joins the group of its unordered pair or opens a
  new group at the end.
\<close>

fun add_relationship :: "RelationshipModel \<Rightarrow> NodePair list \<Rightarrow> NodePair list" where
  "add_relationship r [] = [\<lparr>nodeA = source r, nodeB = target r, relationships = [r]\<rparr>]"
| "add_relationship r (p # ps) =
     (if same_pair p r then p\<lparr>relationships := relationships p @ [r]\<rparr> # ps
      else p # add_relationship r ps)"

definition group_relationships :: "RelationshipModel list \<Rightarrow> NodePair list" where
  "group_relationships rs = foldl (\<lambda>groups r. add_relationship r groups) [] rs"

definition groupedRelationships :: "GraphModel \<Rightarrow> NodePair list" where
  "groupedRelationships graph = group_relationships (graph_relationships graph)"

subsection \<open>One relationship per pair of nodes\<close>

text \<open>
  JavaScript array indexing: reading past the end yields \<^verbatim>\<open>undefined\<close> (here \<open>None\<close>)
  and does not raise.
\<close>

definition js_index :: "'a list \<Rightarrow> nat \<Rightarrow> 'a option" where
  "js_index xs i = (if i < length xs then Some (xs ! i) else None)"

text \<open>
  ForceSimulation.ts, lines 48-49:
  \<^verbatim>\<open>Array.from(graph.groupedRelationships()).map(pair => pair.relationships[0])\<close>
\<close>

definition oneRelationshipPerPairOfNodes :: "GraphModel \<Rightarrow> RelationshipModel option list" where
  "oneRelationshipPerPairOfNodes graph =
     map (\<lambda>pair. js_index (relationships pair) 0) (groupedRelationships graph)"

text \<open>
  A well-formed group with respect to a set \<open>R\<close> of relationships: it is not empty, its
  members come from \<open>R\<close>, and they all join the endpoints the group is keyed by.
\<close>

definition group_ok :: "RelationshipModel set \<Rightarrow> NodePair \<Rightarrow> bool" where
  "group_ok R p =
     (relationships p \<noteq> [] \<and> set (relationships p) \<subseteq> R \<and>
      endpoints ` set (relationships p) = {pair_key p})"

section \<open>The simulation engine\<close>

text \<open>
  Modelled from the spec: the engine is the imported package \<^verbatim>\<open>d3-force\<close>, which is not
  among the sources; its contract is section 4.1.  A force is kept as a descriptor
  (kind and numeric parameters, section 3), one constructor per factory the source
  calls: \<^verbatim>\<open>forceManyBody().strength(s)\<close>, \<^verbatim>\<open>forceX(x).strength(s)\<close>,
  \<^verbatim>\<open>forceY(y).strength(s)\<close>, \<^verbatim>\<open>forceCollide().radius(r)\<close> and
  \<^verbatim>\<open>forceLink(links).id(node => node.id).distance(d)\<close>.
\<close>

datatype force =
    ManyBody real
  | ForceX real real
  | ForceY real real
  | Collide real
  | Link "RelationshipModel option list" real

text \<open>
  Modelled from the spec: the numerical part of the engine.  Section 4.1 fixes only its
  shape: a step applies the registered forces in registration order, integrates and damps
  the velocities (\<open>advance\<close>), and decrements alpha by a fixed ratio (\<open>cool\<close>).  Both are
  parameters, together with the values a new simulation starts from.
\<close>

record integrator =
  initial_alpha :: real
  initial_alphaMin :: real
  initial_velocityDecay :: real
  cool :: "real \<Rightarrow> real"
  advance :: "(string \<times> force) list \<Rightarrow> real \<Rightarrow> real \<Rightarrow> NodeModel list \<Rightarrow> NodeModel list"

text \<open>
  Modelled from the spec: the state of the engine (sections 3 and 4.1): the working node
  set, the named forces in registration order, alpha and its floor, the velocity decay,
  and whether the automatic per-frame driver is running.
\<close>

record Simulation =
  sim_nodes :: "NodeModel list"
  forces :: "(string \<times> force) list"
  alpha :: real
  alphaMin :: real
  velocityDecay :: real
  running :: bool
  numerics :: integrator

text \<open>
  Modelled from the spec: \<^verbatim>\<open>forceSimulation()\<close>.  A new simulation has no nodes and no
  forces, and its automatic driver is started on creation (the source calls
  \<^verbatim>\<open>.stop()\<close> to halt it).
\<close>

definition forceSimulation :: "integrator \<Rightarrow> Simulation" where
  "forceSimulation E =
     \<lparr>sim_nodes = [], forces = [], alpha = initial_alpha E, alphaMin = initial_alphaMin E,
      velocityDecay = initial_velocityDecay E, running = True, numerics = E\<rparr>"

text \<open>
  Modelled from the spec: \<^verbatim>\<open>simulation.force(name, force)\<close>, section 4.1
  \<^verbatim>\<open>setForce(name, forceFn)\<close>: installs or replaces a named force.  A new name is
  registered last; an existing name keeps its place and gets the new force.
\<close>

fun set_force :: "string \<Rightarrow> force \<Rightarrow> (string \<times> force) list \<Rightarrow> (string \<times> force) list" where
  "set_force name f [] = [(name, f)]"
| "set_force name f ((n, g) # fs) =
     (if n = name then (name, f) # fs else (n, g) # set_force name f fs)"

definition d3_force :: "string \<Rightarrow> force \<Rightarrow> Simulation \<Rightarrow> Simulation" where
  "d3_force name f e = e\<lparr>forces := set_force name f (forces e)\<rparr>"

text \<open>
  Modelled from the spec: \<^verbatim>\<open>simulation.nodes(nodes)\<close>, section 4.1 \<^verbatim>\<open>setNodes(nodes)\<close>:
  replaces the working node set.
\<close>

definition d3_nodes :: "NodeModel list \<Rightarrow> Simulation \<Rightarrow> Simulation" where
  "d3_nodes ns e = e\<lparr>sim_nodes := ns\<rparr>"

text \<open>Modelled from the spec: the setters for the scalar parameters of the engine.\<close>

definition d3_velocityDecay :: "real \<Rightarrow> Simulation \<Rightarrow> Simulation" where
  "d3_velocityDecay v e = e\<lparr>velocityDecay := v\<rparr>"

definition d3_alpha :: "real \<Rightarrow> Simulation \<Rightarrow> Simulation" where
  "d3_alpha a e = e\<lparr>alpha := a\<rparr>"

definition d3_alphaMin :: "real \<Rightarrow> Simulation \<Rightarrow> Simulation" where
  "d3_alphaMin a e = e\<lparr>alphaMin := a\<rparr>"

text \<open>
  Modelled from the spec: \<^verbatim>\<open>simulation.stop()\<close> halts the automatic per-frame driver,
  \<^verbatim>\<open>simulation.restart()\<close> resumes it (section 4.1).
\<close>

definition d3_stop :: "Simulation \<Rightarrow> Simulation" where
  "d3_stop e = e\<lparr>running := False\<rparr>"

definition d3_restart :: "Simulation \<Rightarrow> Simulation" where
  "d3_restart e = e\<lparr>running := True\<rparr>"

text \<open>
  Modelled from the spec: \<^verbatim>\<open>simulation.tick(n)\<close>, section 4.1 \<^verbatim>\<open>step(n)\<close>: advances the
  simulation by \<open>n\<close> discrete integration steps, synchronously.  One step applies the
  forces and moves the nodes, then decrements alpha.  It neither starts nor stops the
  driver and calls no listener.
\<close>

definition tick1 :: "Simulation \<Rightarrow> Simulation" where
  "tick1 e =
     e\<lparr>sim_nodes := advance (numerics e) (forces e) (alpha e) (velocityDecay e) (sim_nodes e),
       alpha := cool (numerics e) (alpha e)\<rparr>"

fun d3_tick :: "nat \<Rightarrow> Simulation \<Rightarrow> Simulation" where
  "d3_tick 0 e = e"
| "d3_tick (Suc n) e = d3_tick n (tick1 e)"

section \<open>Constants and the seeding helper\<close>

text \<open>
  Modelled from the spec: the module \<^verbatim>\<open>constants\<close> is imported by ForceSimulation.ts but
  is not among the sources.  Section 6 lists its members as fixed, named numeric
  parameters; their values are left open.
\<close>

record constants =
  DEFAULT_ALPHA :: real
  DEFAULT_ALPHA_MIN :: real
  FORCE_CENTER_X :: real
  FORCE_CENTER_Y :: real
  FORCE_CHARGE :: real
  FORCE_COLLIDE_RADIUS :: real
  FORCE_LINK_DISTANCE :: real
  LINK_DISTANCE :: real
  PRECOMPUTED_TICKS :: nat
  TICKS_PER_RENDER :: nat
  VELOCITY_DECAY :: real

text \<open>
  Modelled from the spec: \<^verbatim>\<open>utils/circularLayout\<close> is not among the sources.  Section
  4.3: each node is assigned an initial position evenly spaced around the circle of the
  given radius centred at the given point (node \<open>i\<close> of \<open>k\<close> at angle \<open>2\<pi>i/k\<close>).  The
  node objects are changed in place; the model returns the changed list.
\<close>

definition place :: "real \<times> real \<Rightarrow> real \<Rightarrow> nat \<Rightarrow> nat \<times> NodeModel \<Rightarrow> NodeModel" where
  "place center radius k ip =
     (snd ip)\<lparr>px := fst center + radius * sin (2 * pi * real (fst ip) / real k),
              py := snd center + radius * cos (2 * pi * real (fst ip) / real k)\<rparr>"

definition circularLayout :: "NodeModel list \<Rightarrow> real \<times> real \<Rightarrow> real \<Rightarrow> NodeModel list" where
  "circularLayout ns center radius = map (place center radius (length ns)) (enumerate 0 ns)"

section \<open>The controller\<close>

text \<open>
  The class \<^verbatim>\<open>ForceSimulation\<close> (ForceSimulation.ts, lines 51-107).  Its fields are
  \<open>simulation\<close>, \<open>simulationTimeout\<close> and \<open>endSimulationCallback\<close>.  The render callback
  given to the constructor and the end-simulation callback are opaque procedures of the
  caller; what the model keeps of a call to one of them is an entry in \<open>history\<close>, the
  sequence of effects in the order they happened.  \<open>history\<close> also records every
  integration step and every halt and start of the driver.
\<close>

datatype callback = Callback string

datatype event = DriverStarted | DriverStopped | Stepped | Rendered | EndCallback callback

record ForceSimulation =
  simulation :: Simulation
  simulationTimeout :: "nat option"
  endSimulationCallback :: "callback option"
  history :: "event list"

text \<open>The engine calls the controller makes, each with its trace.\<close>

definition call_stop :: "ForceSimulation \<Rightarrow> ForceSimulation" where
  "call_stop s = s\<lparr>simulation := d3_stop (simulation s), history := history s @ [DriverStopped]\<rparr>"

definition call_restart :: "ForceSimulation \<Rightarrow> ForceSimulation" where
  "call_restart s =
     s\<lparr>simulation := d3_restart (simulation s), history := history s @ [DriverStarted]\<rparr>"

definition call_tick :: "nat \<Rightarrow> ForceSimulation \<Rightarrow> ForceSimulation" where
  "call_tick n s =
     s\<lparr>simulation := d3_tick n (simulation s), history := history s @ replicate n Stepped\<rparr>"

definition render :: "ForceSimulation \<Rightarrow> ForceSimulation" where
  "render s = s\<lparr>history := history s @ [Rendered]\<rparr>"

text \<open>
  The listener registered with \<^verbatim>\<open>.on('tick', ...)\<close>, lines 62-65:
  \<^verbatim>\<open>this.simulation.tick(TICKS_PER_RENDER); render()\<close>
\<close>

definition on_tick :: "constants \<Rightarrow> ForceSimulation \<Rightarrow> ForceSimulation" where
  "on_tick K s = render (call_tick (TICKS_PER_RENDER K) s)"

text \<open>
  The listener registered with \<^verbatim>\<open>.on('end', ...)\<close>, lines 66-69:
  \<^verbatim>\<open>this.endSimulationCallback && this.endSimulationCallback();
  this.endSimulationCallback = null\<close>
\<close>

definition on_end :: "ForceSimulation \<Rightarrow> ForceSimulation" where
  "on_end s =
     (case endSimulationCallback s of
        None \<Rightarrow> s
      | Some cb \<Rightarrow> s\<lparr>history := history s @ [EndCallback cb]\<rparr>)\<lparr>endSimulationCallback := None\<rparr>"

text \<open>
  The constructor, lines 56-71: a new simulation with the velocity decay set, the forces
  \<^verbatim>\<open>charge\<close>, \<^verbatim>\<open>centerX\<close> and \<^verbatim>\<open>centerY\<close> registered in this order, the two listeners
  attached, and the driver stopped.
\<close>

definition new_ForceSimulation :: "constants \<Rightarrow> integrator \<Rightarrow> ForceSimulation" where
  "new_ForceSimulation K E =
     call_stop
       \<lparr>simulation =
          d3_force ''centerY'' (ForceY 0 (FORCE_CENTER_Y K))
            (d3_force ''centerX'' (ForceX 0 (FORCE_CENTER_X K))
              (d3_force ''charge'' (ManyBody (FORCE_CHARGE K))
                (d3_velocityDecay (VELOCITY_DECAY K) (forceSimulation E)))),
        simulationTimeout = None,
        endSimulationCallback = None,
        history = [DriverStarted]\<rparr>"

text \<open>
  \<^verbatim>\<open>updateNodes\<close>, lines 73-86.  The radius is
  \<^verbatim>\<open>(nodes.length * LINK_DISTANCE) / (Math.PI * 2)\<close> and the centre is the origin.
  \<^verbatim>\<open>circularLayout\<close> changes the node objects of the graph in place, so the graph is
  returned with the new positions beside the controller.
\<close>

definition updateNodes ::
    "constants \<Rightarrow> GraphModel \<Rightarrow> ForceSimulation \<Rightarrow> GraphModel \<times> ForceSimulation" where
  "updateNodes K graph s =
     (let ns = nodes graph;
          radius = (real (length ns) * LINK_DISTANCE K) / (pi * 2);
          center = (0, 0);
          seeded = circularLayout ns center radius
      in (graph\<lparr>graph_nodes := seeded\<rparr>,
          s\<lparr>simulation :=
              d3_force ''collide'' (Collide (FORCE_COLLIDE_RADIUS K))
                (d3_nodes seeded (simulation s))\<rparr>))"

text \<open>\<^verbatim>\<open>updateRelationships\<close>, lines 88-97.\<close>

definition updateRelationships ::
    "constants \<Rightarrow> GraphModel \<Rightarrow> ForceSimulation \<Rightarrow> ForceSimulation" where
  "updateRelationships K graph s =
     (let links = oneRelationshipPerPairOfNodes graph
      in s\<lparr>simulation :=
             d3_force ''link'' (Link links (FORCE_LINK_DISTANCE K)) (simulation s)\<rparr>)"

text \<open>
  \<^verbatim>\<open>precompute\<close>, lines 99-102:
  \<^verbatim>\<open>this.simulation.stop().tick(PRECOMPUTED_TICKS); this.render()\<close>
\<close>

definition precompute :: "constants \<Rightarrow> ForceSimulation \<Rightarrow> ForceSimulation" where
  "precompute K s = render (call_tick (PRECOMPUTED_TICKS K) (call_stop s))"

text \<open>
  \<^verbatim>\<open>restart\<close>, lines 104-106:
  \<^verbatim>\<open>this.simulation.alphaMin(DEFAULT_ALPHA_MIN).alpha(DEFAULT_ALPHA).restart()\<close>
\<close>

definition restart :: "constants \<Rightarrow> ForceSimulation \<Rightarrow> ForceSimulation" where
  "restart K s =
     call_restart
       (s\<lparr>simulation := d3_alpha (DEFAULT_ALPHA K) (d3_alphaMin (DEFAULT_ALPHA_MIN K) (simulation s))\<rparr>)"

subsection \<open>The automatic driver\<close>

text \<open>
  Modelled from the spec: one animation frame of the engine's automatic driver (sections
  4.1 and 5).  A frame that finds the driver halted does nothing.  Otherwise the engine
  takes one step and notifies the tick listener; when alpha is then below its floor the
  driver halts and the end listener is notified.
\<close>

definition frame :: "constants \<Rightarrow> ForceSimulation \<Rightarrow> ForceSimulation" where
  "frame K s =
     (if running (simulation s) then
        (let s1 = on_tick K (call_tick 1 s)
         in if alpha (simulation s1) < alphaMin (simulation s1) then on_end (call_stop s1)
            else s1)
      else s)"

fun frames :: "constants \<Rightarrow> nat \<Rightarrow> ForceSimulation \<Rightarrow> ForceSimulation" where
  "frames K 0 s = s"
| "frames K (Suc n) s = frames K n (frame K s)"

subsection \<open>Sequences of operations\<close>

text \<open>
  What can happen to a controller: a call of one of its four methods, an animation
  frame, or an assignment to its public field \<^verbatim>\<open>endSimulationCallback\<close>.
\<close>

datatype action =
    UpdateNodes GraphModel
  | UpdateRelationships GraphModel
  | Precompute
  | Restart
  | Frame
  | Register "callback option"

fun perform :: "constants \<Rightarrow> action \<Rightarrow> ForceSimulation \<Rightarrow> ForceSimulation" where
  "perform K (UpdateNodes graph) s = snd (updateNodes K graph s)"
| "perform K (UpdateRelationships graph) s = updateRelationships K graph s"
| "perform K Precompute s = precompute K s"
| "perform K Restart s = restart K s"
| "perform K Frame s = frame K s"
| "perform K (Register cb) s = s\<lparr>endSimulationCallback := cb\<rparr>"

definition run :: "constants \<Rightarrow> action list \<Rightarrow> ForceSimulation \<Rightarrow> ForceSimulation" where
  "run K acts s = foldl (\<lambda>s a. perform K a s) s acts"

definition force_names :: "ForceSimulation \<Rightarrow> string list" where
  "force_names s = map fst (forces (simulation s))"

subsection \<open>Example values\<close>

definition mk_relationship :: "string \<Rightarrow> node_id \<Rightarrow> node_id \<Rightarrow> RelationshipModel" where
  "mk_relationship i a b = \<lparr>rel_id = i, source = a, target = b\<rparr>"

definition mk_node :: "node_id \<Rightarrow> NodeModel" where
  "mk_node i = \<lparr>nid = i, px = 0, py = 0, vx = 0, vy = 0\<rparr>"

text \<open>Three nodes; two parallel relationships between A and B, one between B and C.\<close>

definition example_graph :: GraphModel where
  "example_graph =
     \<lparr>graph_nodes = [mk_node ''A'', mk_node ''B'', mk_node ''C''],
      graph_relationships =
        [mk_relationship ''r1'' ''A'' ''B'', mk_relationship ''r2'' ''B'' ''A'',
         mk_relationship ''r3'' ''B'' ''C'']\<rparr>"

text \<open>Both endpoint ids of a relationship are ids of nodes of the graph.\<close>

definition endpoints_present :: "GraphModel \<Rightarrow> RelationshipModel \<Rightarrow> bool" where
  "endpoints_present graph r =
     (source r \<in> set (map nid (nodes graph)) \<and> target r \<in> set (map nid (nodes graph)))"

text \<open>One node, and one relationship whose target id is the id of no node.\<close>

definition dangling_graph :: GraphModel where
  "dangling_graph =
     \<lparr>graph_nodes = [mk_node ''A''],
      graph_relationships = [mk_relationship ''r1'' ''A'' ''Z'']\<rparr>"

text \<open>Example values for the constants and for the numerical part of the engine.\<close>

definition example_constants :: constants where
  "example_constants =
     \<lparr>DEFAULT_ALPHA = 1, DEFAULT_ALPHA_MIN = 1 / 20, FORCE_CENTER_X = 3 / 100,
      FORCE_CENTER_Y = 3 / 100, FORCE_CHARGE = - 400, FORCE_COLLIDE_RADIUS = 25,
      FORCE_LINK_DISTANCE = 90, LINK_DISTANCE = 45, PRECOMPUTED_TICKS = 3,
      TICKS_PER_RENDER = 1, VELOCITY_DECAY = 2 / 5\<rparr>"

definition example_integrator :: integrator where
  "example_integrator =
     \<lparr>initial_alpha = 1, initial_alphaMin = 1 / 1000, initial_velocityDecay = 3 / 5,
      cool = (\<lambda>a. a / 2), advance = (\<lambda>fs a v ns. ns)\<rparr>"

definition example_simulation :: ForceSimulation where
  "example_simulation = new_ForceSimulation example_constants example_integrator"

text \<open>The calls of an end-simulation callback in the history, in order.\<close>

fun is_end_call :: "event \<Rightarrow> bool" where
  "is_end_call (EndCallback cb) = True"
| "is_end_call ev = False"

definition end_calls :: "ForceSimulation \<Rightarrow> event list" where
  "end_calls s = filter is_end_call (history s)"

text \<open>Kinds of actions: the two update methods, and the two methods that set things moving.\<close>

fun is_UpdateNodes :: "action \<Rightarrow> bool" where
  "is_UpdateNodes (UpdateNodes graph) = True"
| "is_UpdateNodes a = False"

fun is_UpdateRelationships :: "action \<Rightarrow> bool" where
  "is_UpdateRelationships (UpdateRelationships graph) = True"
| "is_UpdateRelationships a = False"

fun is_Restart_or_Precompute :: "action \<Rightarrow> bool" where
  "is_Restart_or_Precompute Restart = True"
| "is_Restart_or_Precompute Precompute = True"
| "is_Restart_or_Precompute a = False"

text \<open>The driver is halted and nothing has been stepped or rendered so far.\<close>

definition at_rest :: "ForceSimulation \<Rightarrow> bool" where
  "at_rest s =
     (\<not> running (simulation s) \<and> Stepped \<notin> set (history s) \<and> Rendered \<notin> set (history s))"

text \<open>A graph without nodes and relationships.\<close>

definition empty_graph :: GraphModel where
  "empty_graph = \<lparr>graph_nodes = [], graph_relationships = []\<rparr>"

section \<open>Properties of the grouping\<close>

lemma same_pair_iff: "same_pair p r \<longleftrightarrow> pair_key p = endpoints r"
  by (auto simp: same_pair_def pair_key_def endpoints_def doubleton_eq_iff)

lemma pair_key_relationships_update [simp]:
  "pair_key (p\<lparr>relationships := rs\<rparr>) = pair_key p"
  by (simp add: pair_key_def)

lemma keys_add_relationship:
  "map pair_key (add_relationship r ps) =
     (if endpoints r \<in> set (map pair_key ps) then map pair_key ps
      else map pair_key ps @ [endpoints r])"
proof (induction ps)
  case Nil
  show ?case by (simp add: pair_key_def endpoints_def)
next
  case (Cons p ps)
  show ?case
  proof (cases "same_pair p r")
    case True
    then have "pair_key p = endpoints r" by (simp add: same_pair_iff)
    with True show ?thesis by simp
  next
    case False
    with Cons show ?thesis by (auto simp: same_pair_iff)
  qed
qed

lemma group_relationships_snoc:
  "group_relationships (rs @ [r]) = add_relationship r (group_relationships rs)"
  by (simp add: group_relationships_def)

lemma keys_group_relationships:
  "distinct (map pair_key (group_relationships rs)) \<and>
   set (map pair_key (group_relationships rs)) = endpoints ` set rs"
proof (induction rs rule: rev_induct)
  case Nil
  show ?case by (simp add: group_relationships_def)
next
  case (snoc r rs)
  then show ?case
    by (auto simp: group_relationships_snoc keys_add_relationship)
qed

lemma group_ok_mono: "group_ok R p \<Longrightarrow> R \<subseteq> R' \<Longrightarrow> group_ok R' p"
  by (auto simp: group_ok_def)

lemma group_ok_add_relationship:
  "list_all (group_ok R) ps \<Longrightarrow> r \<in> R \<Longrightarrow> list_all (group_ok R) (add_relationship r ps)"
proof (induction ps)
  case Nil
  then show ?case by (simp add: group_ok_def pair_key_def endpoints_def)
next
  case (Cons p ps)
  then show ?case
    by (auto simp: group_ok_def same_pair_iff)
qed

lemma group_ok_group_relationships:
  "list_all (group_ok (set rs)) (group_relationships rs)"
proof (induction rs rule: rev_induct)
  case Nil
  show ?case by (simp add: group_relationships_def)
next
  case (snoc r rs)
  have "list_all (group_ok (set (rs @ [r]))) (group_relationships rs)"
    using snoc by (auto simp: list_all_iff intro: group_ok_mono)
  then show ?case
    unfolding group_relationships_snoc by (rule group_ok_add_relationship) simp
qed

lemma length_group_relationships:
  "length (group_relationships rs) = card (endpoints ` set rs)"
proof -
  have "length (group_relationships rs) = length (map pair_key (group_relationships rs))"
    by simp
  also have "\<dots> = card (set (map pair_key (group_relationships rs)))"
    using keys_group_relationships [of rs] by (metis distinct_card)
  also have "\<dots> = card (endpoints ` set rs)"
    using keys_group_relationships [of rs] by simp
  finally show ?thesis .
qed

lemma length_group_relationships_le: "length (group_relationships rs) \<le> length rs"
proof -
  have "card (endpoints ` set rs) \<le> card (set rs)"
    by (rule card_image_le) simp
  also have "\<dots> \<le> length rs"
    by (rule card_length)
  finally show ?thesis
    by (simp add: length_group_relationships)
qed

lemma js_index_first: "xs \<noteq> [] \<Longrightarrow> js_index xs 0 = Some (hd xs)"
  by (cases xs) (simp_all add: js_index_def)

lemma representatives:
  "map (\<lambda>pair. js_index (relationships pair) 0) (group_relationships rs) =
     map (\<lambda>pair. Some (hd (relationships pair))) (group_relationships rs)"
  using group_ok_group_relationships [of rs]
  by (auto simp: list_all_iff group_ok_def js_index_first)

lemma representative_endpoints:
  "map (\<lambda>pair. endpoints (hd (relationships pair))) (group_relationships rs) =
     map pair_key (group_relationships rs)"
proof -
  have "endpoints (hd (relationships p)) = pair_key p" if "group_ok R p" for R p
  proof -
    from that have "hd (relationships p) \<in> set (relationships p)"
      by (simp add: group_ok_def)
    with that show ?thesis
      by (auto simp: group_ok_def)
  qed
  then show ?thesis
    using group_ok_group_relationships [of rs] by (auto simp: list_all_iff)
qed

lemma representative_member:
  assumes "p \<in> set (group_relationships rs)"
  shows "hd (relationships p) \<in> set rs"
proof -
  from assms have ok: "group_ok (set rs) p"
    using group_ok_group_relationships [of rs] by (simp add: list_all_iff)
  then have "hd (relationships p) \<in> set (relationships p)"
    by (simp add: group_ok_def)
  with ok show ?thesis
    by (auto simp: group_ok_def)
qed

section \<open>The force registry\<close>

lemma map_of_set_force: "map_of (set_force name f fs) name = Some f"
  by (induction fs) auto

lemma map_of_set_force_other: "n \<noteq> name \<Longrightarrow> map_of (set_force name f fs) n = map_of fs n"
  by (induction fs) auto

lemma link_after_updateRelationships:
  "map_of (forces (simulation (updateRelationships K graph s))) ''link'' =
     Some (Link (oneRelationshipPerPairOfNodes graph) (FORCE_LINK_DISTANCE K))"
  by (simp add: updateRelationships_def d3_force_def map_of_set_force)

section \<open>The input of the link force\<close>

lemma example_links:
  "oneRelationshipPerPairOfNodes example_graph =
     [Some (mk_relationship ''r1'' ''A'' ''B''), Some (mk_relationship ''r3'' ''B'' ''C'')]"
  by (simp add: oneRelationshipPerPairOfNodes_def groupedRelationships_def
      group_relationships_def example_graph_def mk_relationship_def same_pair_def js_index_def)

text \<open>
  C1.  After \<open>updateRelationships\<close> the force registered as \<^verbatim>\<open>link\<close> holds the list
  \<open>oneRelationshipPerPairOfNodes graph\<close>.  That list has one entry per group of the
  pair-grouping accessor; its length is the number of distinct unordered endpoint pairs
  among the relationships of the graph, is at most the number of relationships, and the
  list is empty for a graph without relationships.  Its entries are relationships of the
  graph (none is \<^verbatim>\<open>undefined\<close>), no two of them join the same unordered pair, and every
  pair joined by some relationship is joined by one of them.
\<close>

theorem link_input_one_per_pair:
  "map_of (forces (simulation (updateRelationships K graph s))) ''link'' =
     Some (Link (oneRelationshipPerPairOfNodes graph) (FORCE_LINK_DISTANCE K)) \<and>
   length (oneRelationshipPerPairOfNodes graph) = length (groupedRelationships graph) \<and>
   length (oneRelationshipPerPairOfNodes graph) =
     card (endpoints ` set (graph_relationships graph)) \<and>
   length (oneRelationshipPerPairOfNodes graph) \<le> length (graph_relationships graph) \<and>
   oneRelationshipPerPairOfNodes (graph\<lparr>graph_relationships := []\<rparr>) = [] \<and>
   (\<exists>reps. oneRelationshipPerPairOfNodes graph = map Some reps \<and>
      set reps \<subseteq> set (graph_relationships graph) \<and>
      distinct (map endpoints reps) \<and>
      endpoints ` set reps = endpoints ` set (graph_relationships graph))"
proof -
  let ?rs = "graph_relationships graph"
  let ?reps = "map (\<lambda>pair. hd (relationships pair)) (group_relationships ?rs)"
  have one: "oneRelationshipPerPairOfNodes graph = map Some ?reps"
    by (simp add: oneRelationshipPerPairOfNodes_def groupedRelationships_def representatives
        comp_def)
  have keys: "map endpoints ?reps = map pair_key (group_relationships ?rs)"
    using representative_endpoints [of ?rs] by (simp add: comp_def)
  have sub: "set ?reps \<subseteq> set ?rs"
    by (auto dest: representative_member)
  have dist: "distinct (map endpoints ?reps)"
    using keys_group_relationships [of ?rs] by (simp only: keys)
  have img: "endpoints ` set ?reps = endpoints ` set ?rs"
  proof -
    have "endpoints ` set ?reps = set (map endpoints ?reps)"
      by (simp only: set_map)
    also have "\<dots> = endpoints ` set ?rs"
      using keys_group_relationships [of ?rs] by (simp only: keys)
    finally show ?thesis .
  qed
  have len: "length (oneRelationshipPerPairOfNodes graph) = length (groupedRelationships graph)"
    by (simp add: oneRelationshipPerPairOfNodes_def)
  have card: "length (oneRelationshipPerPairOfNodes graph) = card (endpoints ` set ?rs)"
    by (simp add: len groupedRelationships_def length_group_relationships)
  have le: "length (oneRelationshipPerPairOfNodes graph) \<le> length ?rs"
    by (simp add: len groupedRelationships_def length_group_relationships_le)
  have empty: "oneRelationshipPerPairOfNodes (graph\<lparr>graph_relationships := []\<rparr>) = []"
    by (simp add: oneRelationshipPerPairOfNodes_def groupedRelationships_def
        group_relationships_def)
  have reps: "\<exists>reps. oneRelationshipPerPairOfNodes graph = map Some reps \<and>
      set reps \<subseteq> set ?rs \<and> distinct (map endpoints reps) \<and>
      endpoints ` set reps = endpoints ` set ?rs"
    using one sub dist img by (intro exI [of _ ?reps] conjI)
  show ?thesis
    using link_after_updateRelationships [of K graph s] len card le empty reps
    by (intro conjI)
qed

theorem link_input_one_per_pair_witness:
  "oneRelationshipPerPairOfNodes example_graph =
     [Some (mk_relationship ''r1'' ''A'' ''B''), Some (mk_relationship ''r3'' ''B'' ''C'')] \<and>
   card (endpoints ` set (graph_relationships example_graph)) = 2 \<and>
   length (graph_relationships example_graph) = 3"
proof -
  have "length (oneRelationshipPerPairOfNodes example_graph) =
      card (endpoints ` set (graph_relationships example_graph))"
    by (rule link_input_one_per_pair [THEN conjunct2, THEN conjunct2, THEN conjunct1])
  then have "card (endpoints ` set (graph_relationships example_graph)) = 2"
    by (simp add: example_links)
  moreover have "length (graph_relationships example_graph) = 3"
    by (simp add: example_graph_def)
  ultimately show ?thesis
    by (simp add: example_links)
qed

section \<open>Relationships whose endpoints are missing from the node set\<close>

lemma dangling_links:
  "oneRelationshipPerPairOfNodes dangling_graph = [Some (mk_relationship ''r1'' ''A'' ''Z'')]"
  by (simp add: oneRelationshipPerPairOfNodes_def groupedRelationships_def
      group_relationships_def dangling_graph_def js_index_def)

lemma oneRelationshipPerPairOfNodes_nodes:
  "oneRelationshipPerPairOfNodes (graph\<lparr>graph_nodes := ns\<rparr>) = oneRelationshipPerPairOfNodes graph"
  by (simp add: oneRelationshipPerPairOfNodes_def groupedRelationships_def)

lemma link_member:
  assumes "Some r \<in> set (oneRelationshipPerPairOfNodes graph)"
  shows "r \<in> set (graph_relationships graph)"
proof -
  from assms obtain p where p: "p \<in> set (group_relationships (graph_relationships graph))"
      and r: "Some r = js_index (relationships p) 0"
    by (auto simp: oneRelationshipPerPairOfNodes_def groupedRelationships_def)
  from p have "group_ok (set (graph_relationships graph)) p"
    using group_ok_group_relationships [of "graph_relationships graph"]
    by (simp add: list_all_iff)
  then have "relationships p \<noteq> []"
    by (simp add: group_ok_def)
  with r have "r = hd (relationships p)"
    by (simp add: js_index_first)
  with p show ?thesis
    by (simp add: representative_member)
qed

lemma hd_add_relationship:
  "list_all (\<lambda>p. relationships p \<noteq> []) ps \<Longrightarrow>
   map (\<lambda>p. hd (relationships p)) (add_relationship r ps) =
     (if endpoints r \<in> set (map pair_key ps) then map (\<lambda>p. hd (relationships p)) ps
      else map (\<lambda>p. hd (relationships p)) ps @ [r])"
proof (induction ps)
  case Nil
  show ?case by simp
next
  case (Cons p ps)
  show ?case
  proof (cases "same_pair p r")
    case True
    then have "pair_key p = endpoints r" by (simp add: same_pair_iff)
    with True Cons.prems show ?thesis by simp
  next
    case False
    with Cons show ?thesis by (auto simp: same_pair_iff)
  qed
qed

lemma nonempty_groups: "list_all (\<lambda>p. relationships p \<noteq> []) (group_relationships rs)"
  using group_ok_group_relationships [of rs] by (simp add: list_all_iff group_ok_def)

lemma reps_snoc:
  "map (\<lambda>p. hd (relationships p)) (group_relationships (rs @ [r])) =
     (if endpoints r \<in> endpoints ` set rs
      then map (\<lambda>p. hd (relationships p)) (group_relationships rs)
      else map (\<lambda>p. hd (relationships p)) (group_relationships rs) @ [r])"
  using keys_group_relationships [of rs]
  by (simp only: group_relationships_snoc hd_add_relationship [OF nonempty_groups])

lemma reps_mono:
  "set (map (\<lambda>p. hd (relationships p)) (group_relationships rs)) \<subseteq>
   set (map (\<lambda>p. hd (relationships p)) (group_relationships (rs @ zs)))"
proof (induction zs rule: rev_induct)
  case Nil
  show ?case by simp
next
  case (snoc z zs)
  have "set (map (\<lambda>p. hd (relationships p)) (group_relationships (rs @ zs))) \<subseteq>
      set (map (\<lambda>p. hd (relationships p)) (group_relationships ((rs @ zs) @ [z])))"
    by (simp only: reps_snoc) auto
  with snoc show ?case by simp
qed

lemma first_of_pair_kept:
  assumes "graph_relationships graph = earlier @ r # later"
      and "endpoints r \<notin> endpoints ` set earlier"
  shows "Some r \<in> set (oneRelationshipPerPairOfNodes graph)"
proof -
  let ?reps = "\<lambda>rs. map (\<lambda>p. hd (relationships p)) (group_relationships rs)"
  have "r \<in> set (?reps (earlier @ [r]))"
    using assms(2) by (simp only: reps_snoc) simp
  moreover have "set (?reps (earlier @ [r])) \<subseteq> set (?reps ((earlier @ [r]) @ later))"
    by (rule reps_mono)
  ultimately have "r \<in> set (?reps (graph_relationships graph))"
    using assms(1) by auto
  then show ?thesis
    by (simp add: oneRelationshipPerPairOfNodes_def groupedRelationships_def representatives)
     (auto simp: image_iff)
qed

lemma example_graph_present:
  "list_all (endpoints_present example_graph) (graph_relationships example_graph)"
  by (simp add: example_graph_def endpoints_present_def nodes_def mk_node_def mk_relationship_def)

text \<open>
  C2, as stated, fails.  The graph \<open>dangling_graph\<close> has the single node A and one
  relationship from A to Z; Z is the id of no node, and yet after \<open>updateRelationships\<close>
  the force registered as \<^verbatim>\<open>link\<close> holds that relationship.
\<close>

theorem dangling_relationship_kept:
  "mk_relationship ''r1'' ''A'' ''Z'' \<in> set (graph_relationships dangling_graph) \<and>
   target (mk_relationship ''r1'' ''A'' ''Z'') \<notin> set (map nid (nodes dangling_graph)) \<and>
   map_of (forces (simulation
       (updateRelationships example_constants dangling_graph example_simulation))) ''link'' =
     Some (Link [Some (mk_relationship ''r1'' ''A'' ''Z'')] 90)"
  by (simp add: link_after_updateRelationships dangling_links)
     (simp add: dangling_graph_def mk_relationship_def mk_node_def nodes_def example_constants_def)

text \<open>
  C2, amended.  \<open>updateRelationships\<close> does not test relationships against the node set:
  the input of the link force is the same list whatever the node set is, and the first
  relationship of every unordered pair is in it, also when an endpoint id belongs to no
  node.  When every relationship of the graph has both endpoint ids among the node ids,
  so has every relationship in the input of the link force.
\<close>

theorem link_input_ignores_node_set:
  "oneRelationshipPerPairOfNodes (graph\<lparr>graph_nodes := ns\<rparr>) = oneRelationshipPerPairOfNodes graph \<and>
   (graph_relationships graph = earlier @ r # later \<and> endpoints r \<notin> endpoints ` set earlier \<longrightarrow>
      Some r \<in> set (oneRelationshipPerPairOfNodes graph)) \<and>
   (list_all (endpoints_present graph) (graph_relationships graph) \<longrightarrow>
      (\<forall>l. Some l \<in> set (oneRelationshipPerPairOfNodes graph) \<longrightarrow> endpoints_present graph l))"
proof (intro conjI impI allI)
  show "oneRelationshipPerPairOfNodes (graph\<lparr>graph_nodes := ns\<rparr>) =
      oneRelationshipPerPairOfNodes graph"
    by (rule oneRelationshipPerPairOfNodes_nodes)
next
  assume "graph_relationships graph = earlier @ r # later \<and>
      endpoints r \<notin> endpoints ` set earlier"
  then show "Some r \<in> set (oneRelationshipPerPairOfNodes graph)"
    by (simp add: first_of_pair_kept)
next
  fix l
  assume "list_all (endpoints_present graph) (graph_relationships graph)"
     and "Some l \<in> set (oneRelationshipPerPairOfNodes graph)"
  then show "endpoints_present graph l"
    by (auto simp: list_all_iff dest: link_member)
qed

theorem link_input_ignores_node_set_witness:
  "list_all (endpoints_present example_graph) (graph_relationships example_graph) \<and>
   graph_relationships example_graph =
     [mk_relationship ''r1'' ''A'' ''B'', mk_relationship ''r2'' ''B'' ''A''] @
     mk_relationship ''r3'' ''B'' ''C'' # [] \<and>
   endpoints (mk_relationship ''r3'' ''B'' ''C'') \<notin>
     endpoints ` set [mk_relationship ''r1'' ''A'' ''B'', mk_relationship ''r2'' ''B'' ''A''] \<and>
   Some (mk_relationship ''r3'' ''B'' ''C'') \<in> set (oneRelationshipPerPairOfNodes example_graph) \<and>
   endpoints_present example_graph (mk_relationship ''r3'' ''B'' ''C'')"
proof -
  let ?r = "mk_relationship ''r3'' ''B'' ''C''"
  let ?earlier = "[mk_relationship ''r1'' ''A'' ''B'', mk_relationship ''r2'' ''B'' ''A'']"
  have split: "graph_relationships example_graph = ?earlier @ ?r # []"
    by (simp add: example_graph_def)
  have fresh: "endpoints ?r \<notin> endpoints ` set ?earlier"
    by (simp add: endpoints_def mk_relationship_def doubleton_eq_iff)
  note inst = link_input_ignores_node_set
    [where graph = example_graph and ns = "[]" and earlier = ?earlier and r = ?r and later = "[]"]
  from inst split fresh have kept: "Some ?r \<in> set (oneRelationshipPerPairOfNodes example_graph)"
    by blast
  with inst example_graph_present have "endpoints_present example_graph ?r"
    by blast
  with example_graph_present split fresh kept show ?thesis
    by (intro conjI)
qed

section \<open>Engine steps and the driver\<close>

lemma running_tick1 [simp]: "running (tick1 e) = running e"
  by (simp add: tick1_def)

lemma running_d3_tick [simp]: "running (d3_tick n e) = running e"
  by (induction n arbitrary: e) simp_all

lemma forces_tick1 [simp]: "forces (tick1 e) = forces e"
  by (simp add: tick1_def)

lemma forces_d3_tick [simp]: "forces (d3_tick n e) = forces e"
  by (induction n arbitrary: e) simp_all

lemma alphaMin_tick1 [simp]: "alphaMin (tick1 e) = alphaMin e"
  by (simp add: tick1_def)

lemma alphaMin_d3_tick [simp]: "alphaMin (d3_tick n e) = alphaMin e"
  by (induction n arbitrary: e) simp_all

lemma frame_halted: "\<not> running (simulation s) \<Longrightarrow> frame K s = s"
  by (simp add: frame_def)

lemma frames_halted: "\<not> running (simulation s) \<Longrightarrow> frames K n s = s"
  by (induction n) (simp_all add: frame_halted)

text \<open>
  C3.  \<open>precompute\<close> halts the driver, then takes exactly \<open>PRECOMPUTED_TICKS\<close>
  integration steps, then calls the render callback once, in this order and within the
  one call.  Afterwards the driver is halted, so that animation frames change nothing;
  the driver is never started, and the other fields of the controller are untouched.
\<close>

theorem precompute_effect:
  "history (precompute K s) =
     history s @ [DriverStopped] @ replicate (PRECOMPUTED_TICKS K) Stepped @ [Rendered] \<and>
   simulation (precompute K s) = d3_tick (PRECOMPUTED_TICKS K) (d3_stop (simulation s)) \<and>
   \<not> running (simulation (precompute K s)) \<and>
   frames K n (precompute K s) = precompute K s \<and>
   endSimulationCallback (precompute K s) = endSimulationCallback s \<and>
   simulationTimeout (precompute K s) = simulationTimeout s"
proof -
  have sim: "simulation (precompute K s) = d3_tick (PRECOMPUTED_TICKS K) (d3_stop (simulation s))"
    by (simp add: precompute_def render_def call_tick_def call_stop_def)
  have halted: "\<not> running (simulation (precompute K s))"
    by (simp add: sim d3_stop_def)
  have hist: "history (precompute K s) =
      history s @ [DriverStopped] @ replicate (PRECOMPUTED_TICKS K) Stepped @ [Rendered]"
    by (simp add: precompute_def render_def call_tick_def call_stop_def)
  have idle: "frames K n (precompute K s) = precompute K s"
    using halted by (rule frames_halted)
  have cb: "endSimulationCallback (precompute K s) = endSimulationCallback s"
    by (simp add: precompute_def render_def call_tick_def call_stop_def)
  have tm: "simulationTimeout (precompute K s) = simulationTimeout s"
    by (simp add: precompute_def render_def call_tick_def call_stop_def)
  from hist sim halted idle cb tm show ?thesis
    by (intro conjI)
qed


theorem precompute_effect_witness:
  "history (precompute example_constants (restart example_constants example_simulation)) =
     [DriverStarted, DriverStopped, DriverStarted, DriverStopped, Stepped, Stepped, Stepped,
      Rendered] \<and>
   alpha (simulation (precompute example_constants (restart example_constants example_simulation)))
     = 1 / 8"
proof -
  have three: "PRECOMPUTED_TICKS example_constants = Suc (Suc (Suc 0))"
    by (simp add: example_constants_def)
  have h: "history (restart example_constants example_simulation) =
      [DriverStarted, DriverStopped, DriverStarted]"
    by (simp add: restart_def call_restart_def example_simulation_def new_ForceSimulation_def
        call_stop_def)
  have a: "alpha (d3_tick (Suc (Suc (Suc 0)))
        (d3_stop (simulation (restart example_constants example_simulation)))) = 1 / 8"
    by (simp add: tick1_def d3_stop_def restart_def call_restart_def d3_restart_def d3_alpha_def
        d3_alphaMin_def example_simulation_def new_ForceSimulation_def call_stop_def d3_force_def
        d3_velocityDecay_def forceSimulation_def example_integrator_def example_constants_def)
  note inst = precompute_effect [of example_constants "restart example_constants example_simulation" 0]
  from inst have "history (precompute example_constants (restart example_constants example_simulation)) =
      history (restart example_constants example_simulation) @ [DriverStopped] @
      replicate (PRECOMPUTED_TICKS example_constants) Stepped @ [Rendered]"
    by (rule conjunct1)
  then have 1: "history (precompute example_constants (restart example_constants example_simulation)) =
     [DriverStarted, DriverStopped, DriverStarted, DriverStopped, Stepped, Stepped, Stepped,
      Rendered]"
    by (simp add: h three)
  from inst have "simulation (precompute example_constants (restart example_constants example_simulation)) =
      d3_tick (PRECOMPUTED_TICKS example_constants)
        (d3_stop (simulation (restart example_constants example_simulation)))"
    by (rule conjunct2 [THEN conjunct1])
  then have 2: "alpha (simulation (precompute example_constants
      (restart example_constants example_simulation))) = 1 / 8"
    by (simp only: three a)
  from 1 2 show ?thesis by (intro conjI)
qed

text \<open>What one frame of a running driver adds to the history.\<close>

lemma history_frame_running:
  assumes run: "running (simulation s)"
  shows "\<exists>rest. history (frame K s) =
           history s @ [Stepped] @ replicate (TICKS_PER_RENDER K) Stepped @ [Rendered] @ rest \<and>
           Stepped \<notin> set rest \<and> Rendered \<notin> set rest"
proof -
  let ?s1 = "on_tick K (call_tick 1 s)"
  have h1: "history ?s1 =
      history s @ [Stepped] @ replicate (TICKS_PER_RENDER K) Stepped @ [Rendered]"
    by (simp add: on_tick_def render_def call_tick_def)
  show ?thesis
  proof (cases "alpha (simulation ?s1) < alphaMin (simulation ?s1)")
    case False
    with run have "frame K s = ?s1"
      by (simp add: frame_def Let_def)
    with h1 show ?thesis
      by (intro exI [of _ "[]"]) simp
  next
    case True
    with run have fr: "frame K s = on_end (call_stop ?s1)"
      by (simp add: frame_def Let_def)
    show ?thesis
    proof (cases "endSimulationCallback s")
      case None
      then have "history (frame K s) = history ?s1 @ [DriverStopped]"
        by (simp add: fr on_end_def call_stop_def on_tick_def render_def call_tick_def)
      with h1 show ?thesis
        by (intro exI [of _ "[DriverStopped]"]) simp
    next
      case (Some cb)
      then have "history (frame K s) = history ?s1 @ [DriverStopped, EndCallback cb]"
        by (simp add: fr on_end_def call_stop_def on_tick_def render_def call_tick_def)
      with h1 show ?thesis
        by (intro exI [of _ "[DriverStopped, EndCallback cb]"]) simp
    qed
  qed
qed

section \<open>Restart\<close>

text \<open>
  C6.  Whatever the state before, after \<open>restart\<close> alpha is \<open>DEFAULT_ALPHA\<close>, the alpha
  floor is \<open>DEFAULT_ALPHA_MIN\<close> and the automatic driver runs; the one effect is the start
  of the driver, and the nodes, the forces, the velocity decay and the registered
  end-simulation callback are untouched.  The next animation frame begins with a step
  of the simulation.
\<close>

theorem restart_resets_alpha:
  "alpha (simulation (restart K s)) = DEFAULT_ALPHA K \<and>
   alphaMin (simulation (restart K s)) = DEFAULT_ALPHA_MIN K \<and>
   running (simulation (restart K s)) \<and>
   history (restart K s) = history s @ [DriverStarted] \<and>
   sim_nodes (simulation (restart K s)) = sim_nodes (simulation s) \<and>
   forces (simulation (restart K s)) = forces (simulation s) \<and>
   velocityDecay (simulation (restart K s)) = velocityDecay (simulation s) \<and>
   endSimulationCallback (restart K s) = endSimulationCallback s \<and>
   (\<exists>rest. history (frame K (restart K s)) = history s @ [DriverStarted, Stepped] @ rest)"
proof -
  have run: "running (simulation (restart K s))"
    by (simp add: restart_def call_restart_def d3_restart_def)
  have hist: "history (restart K s) = history s @ [DriverStarted]"
    by (simp add: restart_def call_restart_def)
  from run obtain rest where "history (frame K (restart K s)) =
      history (restart K s) @ [Stepped] @ replicate (TICKS_PER_RENDER K) Stepped @ [Rendered] @ rest"
    using history_frame_running by blast
  then have "history (frame K (restart K s)) = history s @ [DriverStarted, Stepped] @
      (replicate (TICKS_PER_RENDER K) Stepped @ [Rendered] @ rest)"
    by (simp add: hist)
  then have "\<exists>rest. history (frame K (restart K s)) = history s @ [DriverStarted, Stepped] @ rest"
    by (rule exI)
  with run hist show ?thesis
    by (simp add: restart_def call_restart_def d3_restart_def d3_alpha_def d3_alphaMin_def)
qed

theorem restart_resets_alpha_witness:
  "alpha (simulation (restart example_constants
      (precompute example_constants example_simulation))) = 1 \<and>
   alphaMin (simulation (restart example_constants
      (precompute example_constants example_simulation))) = 1 / 20 \<and>
   running (simulation (restart example_constants
      (precompute example_constants example_simulation))) \<and>
   history (restart example_constants (precompute example_constants example_simulation)) =
     [DriverStarted, DriverStopped, DriverStopped, Stepped, Stepped, Stepped, Rendered,
      DriverStarted]"
proof -
  have three: "PRECOMPUTED_TICKS example_constants = Suc (Suc (Suc 0))"
    by (simp add: example_constants_def)
  have "history (precompute example_constants example_simulation) =
      [DriverStarted, DriverStopped, DriverStopped, Stepped, Stepped, Stepped, Rendered]"
    by (simp add: precompute_def render_def call_tick_def call_stop_def three
        example_simulation_def new_ForceSimulation_def)
  then show ?thesis
    using restart_resets_alpha
      [where K = example_constants and s = "precompute example_constants example_simulation"]
    by (simp add: example_constants_def)
qed

section \<open>The frame of updateRelationships\<close>

lemma filter_set_force:
  "filter (\<lambda>p. fst p \<noteq> name) (set_force name f fs) = filter (\<lambda>p. fst p \<noteq> name) fs"
  by (induction fs) auto

text \<open>
  C8.  \<open>updateRelationships\<close> changes the force registered as \<^verbatim>\<open>link\<close> and nothing else:
  putting the old force list back gives the state before the call (so the nodes with
  their positions and velocities, alpha, the alpha floor, the running flag, the callback
  and the history are the same), and the forces under every other name are the same and
  in the same order.
\<close>

theorem updateRelationships_frame:
  "(updateRelationships K graph s)
     \<lparr>simulation := (simulation (updateRelationships K graph s))
        \<lparr>forces := forces (simulation s)\<rparr>\<rparr> = s \<and>
   sim_nodes (simulation (updateRelationships K graph s)) = sim_nodes (simulation s) \<and>
   alpha (simulation (updateRelationships K graph s)) = alpha (simulation s) \<and>
   alphaMin (simulation (updateRelationships K graph s)) = alphaMin (simulation s) \<and>
   running (simulation (updateRelationships K graph s)) = running (simulation s) \<and>
   history (updateRelationships K graph s) = history s \<and>
   filter (\<lambda>p. fst p \<noteq> ''link'') (forces (simulation (updateRelationships K graph s))) =
     filter (\<lambda>p. fst p \<noteq> ''link'') (forces (simulation s)) \<and>
   map_of (forces (simulation (updateRelationships K graph s))) ''link'' =
     Some (Link (oneRelationshipPerPairOfNodes graph) (FORCE_LINK_DISTANCE K))"
  by (simp add: updateRelationships_def d3_force_def filter_set_force map_of_set_force)


theorem updateRelationships_frame_witness:
  "running (simulation (updateRelationships example_constants example_graph
      (restart example_constants example_simulation))) \<and>
   alpha (simulation (updateRelationships example_constants example_graph
      (restart example_constants example_simulation))) = 1 \<and>
   filter (\<lambda>p. fst p \<noteq> ''link'') (forces (simulation (updateRelationships example_constants
      example_graph (restart example_constants example_simulation)))) =
     [(''charge'', ManyBody (- 400)), (''centerX'', ForceX 0 (3 / 100)),
      (''centerY'', ForceY 0 (3 / 100))]"
proof -
  have "running (simulation (restart example_constants example_simulation)) \<and>
      alpha (simulation (restart example_constants example_simulation)) = 1 \<and>
      forces (simulation (restart example_constants example_simulation)) =
        [(''charge'', ManyBody (- 400)), (''centerX'', ForceX 0 (3 / 100)),
         (''centerY'', ForceY 0 (3 / 100))]"
    by (simp add: restart_def call_restart_def d3_restart_def d3_alpha_def d3_alphaMin_def
        example_simulation_def new_ForceSimulation_def call_stop_def d3_stop_def d3_force_def
        d3_velocityDecay_def forceSimulation_def example_constants_def)
  then show ?thesis
    using updateRelationships_frame
      [where K = example_constants and graph = example_graph
         and s = "restart example_constants example_simulation"]
    by simp
qed

section \<open>The tick listener\<close>

text \<open>
  C9.  The tick listener of the controller takes exactly \<open>TICKS_PER_RENDER\<close> integration
  steps and then calls the render callback once.  In an animation frame with the driver
  running, the engine's own step comes first, then the listener's steps and the one call
  of the render callback; what follows in that frame is neither a step nor a rendering.
\<close>

theorem tick_listener_steps_then_renders:
  "history (on_tick K s) = history s @ replicate (TICKS_PER_RENDER K) Stepped @ [Rendered] \<and>
   simulation (on_tick K s) = d3_tick (TICKS_PER_RENDER K) (simulation s) \<and>
   (running (simulation s) \<longrightarrow>
      (\<exists>rest. history (frame K s) =
         history s @ [Stepped] @ replicate (TICKS_PER_RENDER K) Stepped @ [Rendered] @ rest \<and>
         Stepped \<notin> set rest \<and> Rendered \<notin> set rest))"
proof (intro conjI impI)
  show "history (on_tick K s) = history s @ replicate (TICKS_PER_RENDER K) Stepped @ [Rendered]"
    by (simp add: on_tick_def render_def call_tick_def)
  show "simulation (on_tick K s) = d3_tick (TICKS_PER_RENDER K) (simulation s)"
    by (simp add: on_tick_def render_def call_tick_def)
next
  assume "running (simulation s)"
  then show "\<exists>rest. history (frame K s) =
         history s @ [Stepped] @ replicate (TICKS_PER_RENDER K) Stepped @ [Rendered] @ rest \<and>
         Stepped \<notin> set rest \<and> Rendered \<notin> set rest"
    by (rule history_frame_running)
qed

theorem tick_listener_steps_then_renders_witness:
  "running (simulation (restart example_constants example_simulation)) \<and>
   history (on_tick example_constants (restart example_constants example_simulation)) =
     [DriverStarted, DriverStopped, DriverStarted, Stepped, Rendered] \<and>
   history (frame example_constants (restart example_constants example_simulation)) =
     [DriverStarted, DriverStopped, DriverStarted, Stepped, Stepped, Rendered]"
proof -
  let ?s = "restart example_constants example_simulation"
  have run: "running (simulation ?s)"
    by (simp add: restart_def call_restart_def d3_restart_def)
  have h: "history ?s = [DriverStarted, DriverStopped, DriverStarted]"
    by (simp add: restart_def call_restart_def example_simulation_def new_ForceSimulation_def
        call_stop_def)
  have t: "TICKS_PER_RENDER example_constants = Suc 0"
    by (simp add: example_constants_def)
  note inst = tick_listener_steps_then_renders [where K = example_constants and s = ?s]
  from inst have 1: "history (on_tick example_constants ?s) =
      [DriverStarted, DriverStopped, DriverStarted, Stepped, Rendered]"
    by (simp add: h t)
  have 2: "history (frame example_constants ?s) =
     [DriverStarted, DriverStopped, DriverStarted, Stepped, Stepped, Rendered]"
    by (simp add: frame_def Let_def on_tick_def render_def call_tick_def tick1_def
        restart_def call_restart_def d3_restart_def d3_alpha_def d3_alphaMin_def
        example_simulation_def new_ForceSimulation_def call_stop_def d3_stop_def d3_force_def
        d3_velocityDecay_def forceSimulation_def example_constants_def example_integrator_def)
  from run 1 2 show ?thesis by (intro conjI)
qed

section \<open>The end-simulation callback\<close>

lemma end_calls_call_tick [simp]: "end_calls (call_tick n s) = end_calls s"
  by (simp add: end_calls_def call_tick_def)

lemma end_calls_render [simp]: "end_calls (render s) = end_calls s"
  by (simp add: end_calls_def render_def)

lemma end_calls_on_tick [simp]: "end_calls (on_tick K s) = end_calls s"
  by (simp add: on_tick_def)

lemma end_calls_call_stop [simp]: "end_calls (call_stop s) = end_calls s"
  by (simp add: end_calls_def call_stop_def)

lemma end_calls_restart [simp]: "end_calls (restart K s) = end_calls s"
  by (simp add: end_calls_def restart_def call_restart_def)

lemma end_calls_on_end:
  "end_calls (on_end s) =
     (case endSimulationCallback s of None \<Rightarrow> end_calls s
      | Some cb \<Rightarrow> end_calls s @ [EndCallback cb])"
  by (simp add: end_calls_def on_end_def split: option.split)

lemma callback_on_end [simp]: "endSimulationCallback (on_end s) = None"
  by (simp add: on_end_def split: option.split)

lemma callback_on_tick [simp]: "endSimulationCallback (on_tick K s) = endSimulationCallback s"
  by (simp add: on_tick_def render_def call_tick_def)

lemma callback_call_tick [simp]: "endSimulationCallback (call_tick n s) = endSimulationCallback s"
  by (simp add: call_tick_def)

lemma callback_call_stop [simp]: "endSimulationCallback (call_stop s) = endSimulationCallback s"
  by (simp add: call_stop_def)

lemma callback_restart [simp]: "endSimulationCallback (restart K s) = endSimulationCallback s"
  by (simp add: restart_def call_restart_def)

lemma simulation_on_end [simp]: "simulation (on_end s) = simulation s"
  by (simp add: on_end_def split: option.split)

lemma running_on_tick [simp]:
  "running (simulation (on_tick K s)) = running (simulation s)"
  by (simp add: on_tick_def render_def call_tick_def)

lemma running_call_tick [simp]:
  "running (simulation (call_tick n s)) = running (simulation s)"
  by (simp add: call_tick_def)

lemma running_call_stop [simp]: "\<not> running (simulation (call_stop s))"
  by (simp add: call_stop_def d3_stop_def)

lemma alpha_call_stop [simp]:
  "alpha (simulation (call_stop s)) = alpha (simulation s)"
  "alphaMin (simulation (call_stop s)) = alphaMin (simulation s)"
  by (simp_all add: call_stop_def d3_stop_def)

text \<open>One frame of a running driver either goes on or converges.\<close>

lemma frame_goes_on:
  assumes "running (simulation s)" and "running (simulation (frame K s))"
  shows "end_calls (frame K s) = end_calls s \<and>
         endSimulationCallback (frame K s) = endSimulationCallback s"
proof -
  let ?s1 = "on_tick K (call_tick 1 s)"
  from assms have "\<not> alpha (simulation ?s1) < alphaMin (simulation ?s1)"
    by (auto simp: frame_def Let_def)
  with assms(1) have "frame K s = ?s1"
    by (simp add: frame_def Let_def)
  then show ?thesis
    by simp
qed

lemma frame_converges:
  assumes "running (simulation s)" and "\<not> running (simulation (frame K s))"
  shows "end_calls (frame K s) =
           (case endSimulationCallback s of None \<Rightarrow> end_calls s
            | Some cb \<Rightarrow> end_calls s @ [EndCallback cb]) \<and>
         endSimulationCallback (frame K s) = None \<and>
         alpha (simulation (frame K s)) < alphaMin (simulation (frame K s))"
proof -
  let ?s1 = "on_tick K (call_tick 1 s)"
  from assms have conv: "alpha (simulation ?s1) < alphaMin (simulation ?s1)"
    by (auto simp: frame_def Let_def split: if_splits)
  with assms(1) have "frame K s = on_end (call_stop ?s1)"
    by (simp add: frame_def Let_def)
  with conv show ?thesis
    by (simp add: end_calls_on_end split: option.split)
qed

lemma frames_without_callback:
  "endSimulationCallback s = None \<Longrightarrow> end_calls (frames K n s) = end_calls s"
proof (induction n arbitrary: s)
  case 0
  show ?case by simp
next
  case (Suc n)
  have "endSimulationCallback (frame K s) = None \<and> end_calls (frame K s) = end_calls s"
  proof (cases "running (simulation s)")
    case False
    with Suc.prems show ?thesis by (simp add: frame_halted)
  next
    case True
    show ?thesis
    proof (cases "running (simulation (frame K s))")
      case True
      with \<open>running (simulation s)\<close> Suc.prems show ?thesis
        by (simp add: frame_goes_on)
    next
      case False
      with \<open>running (simulation s)\<close> Suc.prems show ?thesis
        by (simp add: frame_converges)
    qed
  qed
  with Suc.IH [of "frame K s"] show ?case by simp
qed

lemma frames_with_callback:
  assumes "running (simulation s)" and "endSimulationCallback s = Some cb"
  shows "(running (simulation (frames K n s)) \<longrightarrow>
            end_calls (frames K n s) = end_calls s \<and>
            endSimulationCallback (frames K n s) = Some cb) \<and>
         (\<not> running (simulation (frames K n s)) \<longrightarrow>
            end_calls (frames K n s) = end_calls s @ [EndCallback cb] \<and>
            endSimulationCallback (frames K n s) = None \<and>
            alpha (simulation (frames K n s)) < alphaMin (simulation (frames K n s)))"
  using assms
proof (induction n arbitrary: s)
  case 0
  then show ?case by simp
next
  case (Suc n)
  show ?case
  proof (cases "running (simulation (frame K s))")
    case True
    with Suc.prems have "end_calls (frame K s) = end_calls s"
        and "endSimulationCallback (frame K s) = Some cb"
      by (simp_all add: frame_goes_on)
    with Suc.IH [of "frame K s"] True show ?thesis by simp
  next
    case False
    with Suc.prems have "end_calls (frame K s) = end_calls s @ [EndCallback cb]"
        and "endSimulationCallback (frame K s) = None"
        and "alpha (simulation (frame K s)) < alphaMin (simulation (frame K s))"
      by (simp_all add: frame_converges)
    with False show ?thesis by (simp add: frames_halted)
  qed
qed

subsection \<open>Convergence under a fixed decay ratio\<close>

lemma numerics_tick1 [simp]: "numerics (tick1 e) = numerics e"
  by (simp add: tick1_def)

lemma numerics_d3_tick [simp]: "numerics (d3_tick n e) = numerics e"
  by (induction n arbitrary: e) simp_all

lemma numerics_on_tick [simp]:
  "numerics (simulation (on_tick K (call_tick n s))) = numerics (simulation s)"
  by (simp add: on_tick_def render_def call_tick_def)

lemma numerics_restart [simp]: "numerics (simulation (restart K s)) = numerics (simulation s)"
  by (simp add: restart_def call_restart_def d3_restart_def d3_alpha_def d3_alphaMin_def)

lemma alpha_d3_tick:
  "\<forall>a. cool (numerics e) a = q * a \<Longrightarrow> alpha (d3_tick n e) = q ^ n * alpha e"
proof (induction n arbitrary: e)
  case 0
  show ?case by simp
next
  case (Suc n)
  from Suc.prems have "\<forall>a. cool (numerics (tick1 e)) a = q * a"
    by simp
  then have "alpha (d3_tick n (tick1 e)) = q ^ n * alpha (tick1 e)"
    by (rule Suc.IH)
  with Suc.prems show ?case
    by (simp add: tick1_def)
qed

lemma alpha_on_tick:
  assumes "\<forall>a. cool (numerics (simulation s)) a = q * a"
  shows "alpha (simulation (on_tick K (call_tick 1 s))) =
           q ^ Suc (TICKS_PER_RENDER K) * alpha (simulation s)"
proof -
  have "alpha (simulation (on_tick K (call_tick 1 s))) =
      alpha (d3_tick (TICKS_PER_RENDER K) (d3_tick 1 (simulation s)))"
    by (simp add: on_tick_def render_def call_tick_def)
  also have "\<dots> = q ^ TICKS_PER_RENDER K * alpha (d3_tick 1 (simulation s))"
    using assms by (intro alpha_d3_tick) simp
  also have "alpha (d3_tick 1 (simulation s)) = q ^ 1 * alpha (simulation s)"
    using assms by (rule alpha_d3_tick)
  finally show ?thesis
    by simp
qed

lemma alphaMin_on_tick [simp]:
  "alphaMin (simulation (on_tick K (call_tick n s))) = alphaMin (simulation s)"
  by (simp add: on_tick_def render_def call_tick_def)

text \<open>While the driver runs, alpha follows the decay law and has not crossed the floor.\<close>

lemma frames_running:
  assumes "\<forall>a. cool (numerics (simulation s)) a = q * a"
      and "running (simulation (frames K n s))"
  shows "alpha (simulation (frames K n s)) =
           (q ^ Suc (TICKS_PER_RENDER K)) ^ n * alpha (simulation s) \<and>
         alphaMin (simulation (frames K n s)) = alphaMin (simulation s) \<and>
         (0 < n \<longrightarrow> \<not> alpha (simulation (frames K n s)) < alphaMin (simulation s))"
  using assms
proof (induction n arbitrary: s)
  case 0
  show ?case by simp
next
  case (Suc n)
  let ?s1 = "on_tick K (call_tick 1 s)"
  have run0: "running (simulation s)"
  proof (rule ccontr)
    assume "\<not> running (simulation s)"
    then have "frames K (Suc n) s = s" by (rule frames_halted)
    with Suc.prems(2) \<open>\<not> running (simulation s)\<close> show False by simp
  qed
  have run1: "running (simulation (frame K s))"
  proof (rule ccontr)
    assume halted: "\<not> running (simulation (frame K s))"
    then have "frames K n (frame K s) = frame K s" by (rule frames_halted)
    with Suc.prems(2) halted show False by simp
  qed
  from run0 run1 have above: "\<not> alpha (simulation ?s1) < alphaMin (simulation ?s1)"
    by (auto simp: frame_def Let_def)
  with run0 have fr: "frame K s = ?s1"
    by (simp add: frame_def Let_def)
  have law: "\<forall>a. cool (numerics (simulation ?s1)) a = q * a"
    using Suc.prems(1) by simp
  have a1: "alpha (simulation ?s1) = q ^ Suc (TICKS_PER_RENDER K) * alpha (simulation s)"
    using Suc.prems(1) by (rule alpha_on_tick)
  from Suc.prems(2) have "running (simulation (frames K n ?s1))"
    by (simp add: fr)
  with law have ih: "alpha (simulation (frames K n ?s1)) =
        (q ^ Suc (TICKS_PER_RENDER K)) ^ n * alpha (simulation ?s1) \<and>
      alphaMin (simulation (frames K n ?s1)) = alphaMin (simulation ?s1) \<and>
      (0 < n \<longrightarrow> \<not> alpha (simulation (frames K n ?s1)) < alphaMin (simulation ?s1))"
    by (rule Suc.IH)
  have "\<not> alpha (simulation (frames K n ?s1)) < alphaMin (simulation s)"
  proof (cases n)
    case 0
    with above show ?thesis by simp
  next
    case (Suc k)
    with ih show ?thesis by simp
  qed
  with ih a1 show ?case
    by (simp add: fr mult.assoc)
qed

lemma decay_crosses:
  fixes D m r :: real
  assumes "0 \<le> r" and "r < 1" and "0 < m"
  shows "\<exists>n. 0 < n \<and> r ^ n * D < m"
proof (cases "0 < D")
  case False
  with assms have "r ^ 1 * D \<le> 0"
    by (simp add: mult_nonneg_nonpos)
  with assms(3) have "0 < (1::nat) \<and> r ^ 1 * D < m"
    by simp
  then show ?thesis by blast
next
  case True
  with assms(3) have "0 < m / D" by simp
  with assms(2) obtain n where n: "r ^ n < m / D"
    using real_arch_pow_inv by blast
  have "r ^ Suc n \<le> r ^ n"
    using assms(1,2) by (simp add: mult_left_le_one_le)
  with n have "r ^ Suc n < m / D" by simp
  with True have "r ^ Suc n * D < m"
    by (simp add: pos_less_divide_eq)
  then show ?thesis by blast
qed

lemma driver_halts:
  assumes law: "\<forall>a. cool (numerics (simulation s)) a = q * a"
      and q: "0 \<le> q" "q < 1"
      and floor: "0 < DEFAULT_ALPHA_MIN K"
  shows "\<exists>n. \<not> running (simulation (frames K n (restart K s)))"
proof -
  let ?r = "q ^ Suc (TICKS_PER_RENDER K)"
  have r0: "0 \<le> ?r" using q(1) by simp
  have "?r \<le> q ^ 1"
    using q by (intro power_decreasing) simp_all
  with q(2) have r1: "?r < 1" by simp
  from r0 r1 floor obtain n where n: "0 < n" "?r ^ n * DEFAULT_ALPHA K < DEFAULT_ALPHA_MIN K"
    using decay_crosses by blast
  have start: "alpha (simulation (restart K s)) = DEFAULT_ALPHA K"
      "alphaMin (simulation (restart K s)) = DEFAULT_ALPHA_MIN K"
    by (simp_all add: restart_def call_restart_def d3_restart_def d3_alpha_def d3_alphaMin_def)
  have "\<not> running (simulation (frames K n (restart K s)))"
  proof
    assume "running (simulation (frames K n (restart K s)))"
    with law have "alpha (simulation (frames K n (restart K s))) =
          ?r ^ n * alpha (simulation (restart K s)) \<and>
        alphaMin (simulation (frames K n (restart K s))) = alphaMin (simulation (restart K s)) \<and>
        (0 < n \<longrightarrow> \<not> alpha (simulation (frames K n (restart K s))) <
           alphaMin (simulation (restart K s)))"
      by (intro frames_running) simp_all
    with n show False
      by (simp add: start)
  qed
  then show ?thesis ..
qed

subsection \<open>One call per cycle\<close>

text \<open>
  C4.  A callback \<open>cb\<close> is registered and \<open>restart\<close> is called; then any number \<open>n\<close> of
  animation frames pass.  While the driver still runs, the callback has not been called
  and is still registered.  Once the driver has halted, alpha is below the alpha floor,
  the callback has been called exactly once, and the field is cleared; a further
  \<open>restart\<close> without a new registration, followed by any number \<open>m\<close> of frames, calls no
  callback.  The end listener itself always leaves the field cleared.  When a step
  multiplies alpha by a fixed ratio \<open>q\<close> with \<open>0 \<le> q < 1\<close> and the configured alpha
  floor is positive, the driver does halt after finitely many frames.
\<close>

theorem end_callback_fires_once:
  "(running (simulation (frames K n (restart K (s\<lparr>endSimulationCallback := Some cb\<rparr>)))) \<longrightarrow>
      end_calls (frames K n (restart K (s\<lparr>endSimulationCallback := Some cb\<rparr>))) = end_calls s \<and>
      endSimulationCallback (frames K n (restart K (s\<lparr>endSimulationCallback := Some cb\<rparr>))) =
        Some cb) \<and>
   (\<not> running (simulation (frames K n (restart K (s\<lparr>endSimulationCallback := Some cb\<rparr>)))) \<longrightarrow>
      end_calls (frames K n (restart K (s\<lparr>endSimulationCallback := Some cb\<rparr>))) =
        end_calls s @ [EndCallback cb] \<and>
      endSimulationCallback (frames K n (restart K (s\<lparr>endSimulationCallback := Some cb\<rparr>))) =
        None \<and>
      alpha (simulation (frames K n (restart K (s\<lparr>endSimulationCallback := Some cb\<rparr>)))) <
        alphaMin (simulation (frames K n (restart K (s\<lparr>endSimulationCallback := Some cb\<rparr>)))) \<and>
      end_calls (frames K m (restart K
          (frames K n (restart K (s\<lparr>endSimulationCallback := Some cb\<rparr>))))) =
        end_calls s @ [EndCallback cb]) \<and>
   endSimulationCallback (on_end s) = None \<and>
   ((\<forall>a. cool (numerics (simulation s)) a = q * a) \<and> 0 \<le> q \<and> q < 1 \<and>
    0 < DEFAULT_ALPHA_MIN K \<longrightarrow>
      (\<exists>k. \<not> running (simulation
         (frames K k (restart K (s\<lparr>endSimulationCallback := Some cb\<rparr>))))))"
proof -
  let ?s0 = "restart K (s\<lparr>endSimulationCallback := Some cb\<rparr>)"
  have run: "running (simulation ?s0)"
    by (simp add: restart_def call_restart_def d3_restart_def)
  have reg: "endSimulationCallback ?s0 = Some cb"
    by simp
  have calls: "end_calls ?s0 = end_calls s"
    by (simp add: end_calls_def restart_def call_restart_def)
  note cycle = frames_with_callback [OF run reg, of K n, unfolded calls]
  have next_cycle: "end_calls (frames K m (restart K (frames K n ?s0))) =
      end_calls s @ [EndCallback cb]"
    if "\<not> running (simulation (frames K n ?s0))"
  proof -
    from that cycle have "endSimulationCallback (frames K n ?s0) = None"
        and "end_calls (frames K n ?s0) = end_calls s @ [EndCallback cb]"
      by simp_all
    then show ?thesis
      by (simp add: frames_without_callback)
  qed
  have halts: "\<exists>k. \<not> running (simulation (frames K k ?s0))"
    if "(\<forall>a. cool (numerics (simulation s)) a = q * a) \<and> 0 \<le> q \<and> q < 1 \<and>
      0 < DEFAULT_ALPHA_MIN K"
    using that driver_halts [of "s\<lparr>endSimulationCallback := Some cb\<rparr>" q K] by simp
  from cycle next_cycle halts show ?thesis
    by simp
qed

lemmas example_unfold =
  frame_def Let_def on_tick_def on_end_def render_def call_tick_def call_stop_def tick1_def
  restart_def call_restart_def d3_restart_def d3_stop_def d3_alpha_def d3_alphaMin_def
  example_simulation_def new_ForceSimulation_def d3_force_def d3_velocityDecay_def
  forceSimulation_def example_constants_def example_integrator_def

lemma example_run_two_frames:
  "running (simulation (frames example_constants (Suc (Suc 0))
      (restart example_constants
        (example_simulation\<lparr>endSimulationCallback := Some (Callback ''fit'')\<rparr>))))"
  by (simp add: example_unfold)

lemma example_run_three_frames:
  "\<not> running (simulation (frames example_constants (Suc (Suc (Suc 0)))
      (restart example_constants
        (example_simulation\<lparr>endSimulationCallback := Some (Callback ''fit'')\<rparr>))))"
  by (simp add: example_unfold)

lemma example_cooling:
  "(\<forall>a. cool (numerics (simulation example_simulation)) a = (1 / 2) * a) \<and>
   (0::real) \<le> 1 / 2 \<and> (1::real) / 2 < 1 \<and> 0 < DEFAULT_ALPHA_MIN example_constants"
  by (simp add: example_simulation_def new_ForceSimulation_def call_stop_def d3_stop_def
      d3_force_def d3_velocityDecay_def forceSimulation_def example_integrator_def
      example_constants_def)

lemma example_no_calls: "end_calls example_simulation = []"
  by (simp add: end_calls_def example_simulation_def new_ForceSimulation_def call_stop_def)

theorem end_callback_fires_once_witness:
  "running (simulation (frames example_constants (Suc (Suc 0))
      (restart example_constants
        (example_simulation\<lparr>endSimulationCallback := Some (Callback ''fit'')\<rparr>)))) \<and>
   end_calls (frames example_constants (Suc (Suc 0))
      (restart example_constants
        (example_simulation\<lparr>endSimulationCallback := Some (Callback ''fit'')\<rparr>))) = [] \<and>
   \<not> running (simulation (frames example_constants (Suc (Suc (Suc 0)))
      (restart example_constants
        (example_simulation\<lparr>endSimulationCallback := Some (Callback ''fit'')\<rparr>)))) \<and>
   end_calls (frames example_constants (Suc (Suc (Suc 0)))
      (restart example_constants
        (example_simulation\<lparr>endSimulationCallback := Some (Callback ''fit'')\<rparr>))) =
     [EndCallback (Callback ''fit'')] \<and>
   endSimulationCallback (frames example_constants (Suc (Suc (Suc 0)))
      (restart example_constants
        (example_simulation\<lparr>endSimulationCallback := Some (Callback ''fit'')\<rparr>))) = None \<and>
   end_calls (frames example_constants 5 (restart example_constants
      (frames example_constants (Suc (Suc (Suc 0)))
        (restart example_constants
          (example_simulation\<lparr>endSimulationCallback := Some (Callback ''fit'')\<rparr>))))) =
     [EndCallback (Callback ''fit'')] \<and>
   (\<forall>a. cool (numerics (simulation example_simulation)) a = (1 / 2) * a) \<and>
   (0::real) \<le> 1 / 2 \<and> (1::real) / 2 < 1 \<and> 0 < DEFAULT_ALPHA_MIN example_constants \<and>
   (\<exists>k. \<not> running (simulation (frames example_constants k
      (restart example_constants
        (example_simulation\<lparr>endSimulationCallback := Some (Callback ''fit'')\<rparr>)))))"
  using
    end_callback_fires_once [where K = example_constants and s = example_simulation
      and cb = "Callback ''fit''" and n = "Suc (Suc 0)" and m = 5 and q = "1 / 2"]
    end_callback_fires_once [where K = example_constants and s = example_simulation
      and cb = "Callback ''fit''" and n = "Suc (Suc (Suc 0))" and m = 5 and q = "1 / 2"]
    example_run_two_frames example_run_three_frames example_cooling
  by (simp only: example_no_calls append_Nil simp_thms)

section \<open>Force names\<close>

lemma names_set_force:
  "map fst (set_force name f fs) =
     (if name \<in> set (map fst fs) then map fst fs else map fst fs @ [name])"
proof (induction fs)
  case Nil
  show ?case by simp
next
  case (Cons p fs)
  obtain n g where p: "p = (n, g)" by (cases p)
  show ?case
  proof (cases "n = name")
    case True
    with p show ?thesis by simp
  next
    case False
    with p Cons show ?thesis by (cases "name \<in> set (map fst fs)") simp_all
  qed
qed

lemma filter_eq_distinct:
  "distinct xs \<Longrightarrow> x \<in> set xs \<Longrightarrow> length (filter (\<lambda>n. n = x) xs) = 1"
proof (induction xs)
  case Nil
  then show ?case by simp
next
  case (Cons y ys)
  show ?case
  proof (cases "y = x")
    case True
    with Cons.prems have "filter (\<lambda>n. n = x) ys = []"
      by (auto simp: filter_empty_conv)
    with True show ?thesis by simp
  next
    case False
    with Cons show ?thesis by simp
  qed
qed

lemma distinct_set_force:
  "distinct (map fst fs) \<Longrightarrow> distinct (map fst (set_force name f fs))"
  by (simp add: names_set_force)

lemma set_force_twice: "set_force name f (set_force name f fs) = set_force name f fs"
  by (induction fs) auto

lemma forces_call_tick [simp]: "forces (simulation (call_tick n s)) = forces (simulation s)"
  by (simp add: call_tick_def)

lemma forces_call_stop [simp]: "forces (simulation (call_stop s)) = forces (simulation s)"
  by (simp add: call_stop_def d3_stop_def)

lemma forces_render [simp]: "forces (simulation (render s)) = forces (simulation s)"
  by (simp add: render_def)

lemma forces_on_tick [simp]: "forces (simulation (on_tick K s)) = forces (simulation s)"
  by (simp add: on_tick_def)

lemma forces_frame [simp]: "forces (simulation (frame K s)) = forces (simulation s)"
  by (simp add: frame_def Let_def)

lemma forces_precompute [simp]: "forces (simulation (precompute K s)) = forces (simulation s)"
  by (simp add: precompute_def)

lemma forces_restart [simp]: "forces (simulation (restart K s)) = forces (simulation s)"
  by (simp add: restart_def call_restart_def d3_restart_def d3_alpha_def d3_alphaMin_def)

lemma forces_updateNodes:
  "forces (simulation (snd (updateNodes K graph s))) =
     set_force ''collide'' (Collide (FORCE_COLLIDE_RADIUS K)) (forces (simulation s))"
  by (simp add: updateNodes_def Let_def d3_force_def d3_nodes_def)

lemma forces_updateRelationships:
  "forces (simulation (updateRelationships K graph s)) =
     set_force ''link'' (Link (oneRelationshipPerPairOfNodes graph) (FORCE_LINK_DISTANCE K))
       (forces (simulation s))"
  by (simp add: updateRelationships_def d3_force_def)

lemma forces_new:
  "forces (simulation (new_ForceSimulation K E)) =
     [(''charge'', ManyBody (FORCE_CHARGE K)), (''centerX'', ForceX 0 (FORCE_CENTER_X K)),
      (''centerY'', ForceY 0 (FORCE_CENTER_Y K))]"
  by (simp add: new_ForceSimulation_def d3_force_def d3_velocityDecay_def forceSimulation_def)

lemma run_snoc: "run K (acts @ [a]) s = perform K a (run K acts s)"
  by (simp add: run_def)

lemma distinct_names_perform:
  "distinct (force_names s) \<Longrightarrow> distinct (force_names (perform K a s))"
  by (cases a)
    (simp_all add: force_names_def forces_updateNodes forces_updateRelationships
      distinct_set_force)

lemma distinct_names_run:
  "distinct (force_names s) \<Longrightarrow> distinct (force_names (run K acts s))"
  by (induction acts rule: rev_induct) (simp_all add: run_def distinct_names_perform)

lemma distinct_names_new: "distinct (force_names (new_ForceSimulation K E))"
  by (simp add: force_names_def forces_new)

section \<open>Seeding twice\<close>

lemma length_circularLayout [simp]: "length (circularLayout ns c r) = length ns"
  by (simp add: circularLayout_def)

lemma place_place:
  "place c r k (i, place c r k (i, n)) = place c r k (i, n)"
  by (simp add: place_def)

lemma circularLayout_twice:
  "circularLayout (circularLayout ns c r) c r = circularLayout ns c r"
  by (rule nth_equalityI) (simp_all add: circularLayout_def nth_enumerate_eq place_place)

lemma nodes_updateNodes:
  "sim_nodes (simulation (snd (updateNodes K graph s))) =
     circularLayout (nodes graph) (0, 0) (real (length (nodes graph)) * LINK_DISTANCE K / (pi * 2))"
  "nodes (fst (updateNodes K graph s)) = sim_nodes (simulation (snd (updateNodes K graph s)))"
  by (simp_all add: updateNodes_def Let_def d3_force_def d3_nodes_def nodes_def)

lemma updateNodes_twice:
  "updateNodes K (fst (updateNodes K graph s)) (snd (updateNodes K graph s)) = updateNodes K graph s"
  by (simp add: updateNodes_def Let_def d3_force_def d3_nodes_def nodes_def circularLayout_twice
      set_force_twice)

text \<open>
  C7.  \<open>updateNodes\<close> is called, and called again with the same (now seeded) node list.
  The second call changes nothing: the node count is the one of the graph, the force
  list is the same, and so is the whole state.  Registering a force under a name that is
  already registered keeps the list of names and puts the new force under that name.
  Force names are distinct in every state the controller reaches from its constructor,
  and in such a state exactly one force is named \<^verbatim>\<open>collide\<close> after the calls.
\<close>

theorem updateNodes_twice_no_duplicate:
  "length (sim_nodes (simulation (snd
      (updateNodes K (fst (updateNodes K graph s)) (snd (updateNodes K graph s)))))) =
     length (sim_nodes (simulation (snd (updateNodes K graph s)))) \<and>
   length (sim_nodes (simulation (snd (updateNodes K graph s)))) = length (nodes graph) \<and>
   forces (simulation (snd
      (updateNodes K (fst (updateNodes K graph s)) (snd (updateNodes K graph s))))) =
     forces (simulation (snd (updateNodes K graph s))) \<and>
   updateNodes K (fst (updateNodes K graph s)) (snd (updateNodes K graph s)) =
     updateNodes K graph s \<and>
   (name \<in> set (map fst fs) \<longrightarrow>
      map fst (set_force name f fs) = map fst fs \<and> map_of (set_force name f fs) name = Some f) \<and>
   distinct (force_names (run K acts (new_ForceSimulation K E))) \<and>
   (distinct (force_names s) \<longrightarrow>
      distinct (force_names (snd
        (updateNodes K (fst (updateNodes K graph s)) (snd (updateNodes K graph s))))) \<and>
      length (filter (\<lambda>n. n = ''collide'') (force_names (snd
        (updateNodes K (fst (updateNodes K graph s)) (snd (updateNodes K graph s)))))) = 1)"
proof -
  have twice: "updateNodes K (fst (updateNodes K graph s)) (snd (updateNodes K graph s)) =
      updateNodes K graph s"
    by (rule updateNodes_twice)
  have count: "length (sim_nodes (simulation (snd (updateNodes K graph s)))) = length (nodes graph)"
    by (simp add: nodes_updateNodes)
  have replace: "map fst (set_force name f fs) = map fst fs \<and>
      map_of (set_force name f fs) name = Some f" if "name \<in> set (map fst fs)"
    using that by (simp add: names_set_force map_of_set_force)
  have reach: "distinct (force_names (run K acts (new_ForceSimulation K E)))"
    by (simp add: distinct_names_run distinct_names_new)
  have one: "distinct (force_names (snd (updateNodes K graph s))) \<and>
      length (filter (\<lambda>n. n = ''collide'') (force_names (snd (updateNodes K graph s)))) = 1"
    if d: "distinct (force_names s)"
  proof -
    have d': "distinct (force_names (snd (updateNodes K graph s)))"
      using d by (simp add: force_names_def forces_updateNodes distinct_set_force)
    have "''collide'' \<in> set (force_names (snd (updateNodes K graph s)))"
      by (simp add: force_names_def forces_updateNodes names_set_force)
    with d' have "length (filter (\<lambda>n. n = ''collide'')
        (force_names (snd (updateNodes K graph s)))) = 1"
      by (rule filter_eq_distinct)
    with d' show ?thesis by simp
  qed
  from count replace reach one show ?thesis
    by (simp only: twice) simp
qed

theorem updateNodes_twice_no_duplicate_witness:
  "distinct (force_names example_simulation) \<and>
   ''collide'' \<in> set (map fst [(''collide'', Collide 1)]) \<and>
   map fst (set_force ''collide'' (Collide 2) [(''collide'', Collide 1)]) = [''collide''] \<and>
   force_names (snd (updateNodes example_constants
      (fst (updateNodes example_constants example_graph example_simulation))
      (snd (updateNodes example_constants example_graph example_simulation)))) =
     [''charge'', ''centerX'', ''centerY'', ''collide''] \<and>
   length (sim_nodes (simulation (snd (updateNodes example_constants
      (fst (updateNodes example_constants example_graph example_simulation))
      (snd (updateNodes example_constants example_graph example_simulation)))))) = 3"
proof -
  note inst = updateNodes_twice_no_duplicate
    [where K = example_constants and graph = example_graph and s = example_simulation
       and name = "''collide''" and fs = "[(''collide'', Collide 1)]" and f = "Collide 2"
       and acts = "[]" and E = example_integrator]
  have d: "distinct (force_names example_simulation)"
    by (simp add: example_simulation_def distinct_names_new)
  have n: "force_names (snd (updateNodes example_constants example_graph example_simulation)) =
      [''charge'', ''centerX'', ''centerY'', ''collide'']"
    by (simp add: force_names_def forces_updateNodes example_simulation_def forces_new)
  have k: "length (nodes example_graph) = 3"
    by (simp add: nodes_def example_graph_def)
  from inst have "updateNodes example_constants
      (fst (updateNodes example_constants example_graph example_simulation))
      (snd (updateNodes example_constants example_graph example_simulation)) =
      updateNodes example_constants example_graph example_simulation"
    by simp
  moreover from inst k
  have "length (sim_nodes (simulation (snd
      (updateNodes example_constants example_graph example_simulation)))) = 3"
    by simp
  ultimately show ?thesis
    using d n by simp
qed

section \<open>The constructed controller\<close>

lemma names_perform:
  "set (force_names (perform K a s)) =
     set (force_names s) \<union> (if is_UpdateNodes a then {''collide''} else {}) \<union>
     (if is_UpdateRelationships a then {''link''} else {})"
  by (cases a)
    (auto simp: force_names_def forces_updateNodes forces_updateRelationships names_set_force)

lemma names_run:
  "set (force_names (run K acts s)) =
     set (force_names s) \<union> (if list_ex is_UpdateNodes acts then {''collide''} else {}) \<union>
     (if list_ex is_UpdateRelationships acts then {''link''} else {})"
proof (induction acts rule: rev_induct)
  case Nil
  show ?case by (simp add: run_def)
next
  case (snoc a acts)
  show ?case
    unfolding run_snoc names_perform snoc.IH by auto
qed

lemma at_rest_new: "at_rest (new_ForceSimulation K E)"
  by (simp add: at_rest_def new_ForceSimulation_def call_stop_def d3_stop_def)

lemma at_rest_perform:
  "at_rest s \<Longrightarrow> \<not> is_Restart_or_Precompute a \<Longrightarrow> at_rest (perform K a s)"
  by (cases a)
    (simp_all add: at_rest_def frame_halted updateNodes_def Let_def updateRelationships_def
      d3_force_def d3_nodes_def)

lemma at_rest_run:
  "at_rest s \<Longrightarrow> \<not> list_ex is_Restart_or_Precompute acts \<Longrightarrow> at_rest (run K acts s)"
  by (induction acts rule: rev_induct) (simp_all add: run_snoc at_rest_perform, simp add: run_def)

text \<open>
  C10.  The constructed controller has its driver halted, has called neither a step nor
  the render callback, and holds exactly the forces \<^verbatim>\<open>charge\<close>, \<^verbatim>\<open>centerX\<close> and
  \<^verbatim>\<open>centerY\<close> with the configured strengths, in this order.  After any sequence of
  actions without \<open>restart\<close> and \<open>precompute\<close> (node and relationship updates, animation
  frames, callback registrations) the driver is still halted and nothing has been stepped
  or rendered.  After any sequence of actions, a force named \<^verbatim>\<open>collide\<close> is registered
  exactly when \<open>updateNodes\<close> was among them, and a force named \<^verbatim>\<open>link\<close> exactly when
  \<open>updateRelationships\<close> was.
\<close>

theorem constructed_at_rest:
  "\<not> running (simulation (new_ForceSimulation K E)) \<and>
   history (new_ForceSimulation K E) = [DriverStarted, DriverStopped] \<and>
   forces (simulation (new_ForceSimulation K E)) =
     [(''charge'', ManyBody (FORCE_CHARGE K)), (''centerX'', ForceX 0 (FORCE_CENTER_X K)),
      (''centerY'', ForceY 0 (FORCE_CENTER_Y K))] \<and>
   velocityDecay (simulation (new_ForceSimulation K E)) = VELOCITY_DECAY K \<and>
   sim_nodes (simulation (new_ForceSimulation K E)) = [] \<and>
   endSimulationCallback (new_ForceSimulation K E) = None \<and>
   (\<not> list_ex is_Restart_or_Precompute acts \<longrightarrow>
      \<not> running (simulation (run K acts (new_ForceSimulation K E))) \<and>
      Stepped \<notin> set (history (run K acts (new_ForceSimulation K E))) \<and>
      Rendered \<notin> set (history (run K acts (new_ForceSimulation K E)))) \<and>
   (''collide'' \<in> set (force_names (run K acts (new_ForceSimulation K E))) \<longleftrightarrow>
      list_ex is_UpdateNodes acts) \<and>
   (''link'' \<in> set (force_names (run K acts (new_ForceSimulation K E))) \<longleftrightarrow>
      list_ex is_UpdateRelationships acts)"
proof -
  have new: "\<not> running (simulation (new_ForceSimulation K E)) \<and>
      history (new_ForceSimulation K E) = [DriverStarted, DriverStopped] \<and>
      velocityDecay (simulation (new_ForceSimulation K E)) = VELOCITY_DECAY K \<and>
      sim_nodes (simulation (new_ForceSimulation K E)) = [] \<and>
      endSimulationCallback (new_ForceSimulation K E) = None"
    by (simp add: new_ForceSimulation_def call_stop_def d3_stop_def d3_force_def
        d3_velocityDecay_def forceSimulation_def)
  have rest: "at_rest (run K acts (new_ForceSimulation K E))"
    if "\<not> list_ex is_Restart_or_Precompute acts"
    using at_rest_new that by (rule at_rest_run)
  have names: "set (force_names (new_ForceSimulation K E)) = {''charge'', ''centerX'', ''centerY''}"
    by (auto simp: force_names_def forces_new)
  have collide: "''collide'' \<in> set (force_names (run K acts (new_ForceSimulation K E))) \<longleftrightarrow>
      list_ex is_UpdateNodes acts"
    by (simp add: names_run names)
  have link: "''link'' \<in> set (force_names (run K acts (new_ForceSimulation K E))) \<longleftrightarrow>
      list_ex is_UpdateRelationships acts"
    by (simp add: names_run names)
  from new rest collide link show ?thesis
    by (simp add: forces_new at_rest_def)
qed


theorem constructed_at_rest_witness:
  "\<not> list_ex is_Restart_or_Precompute
      [UpdateNodes example_graph, Frame, UpdateRelationships example_graph, Register None] \<and>
   \<not> running (simulation (run example_constants
      [UpdateNodes example_graph, Frame, UpdateRelationships example_graph, Register None]
      (new_ForceSimulation example_constants example_integrator))) \<and>
   Rendered \<notin> set (history (run example_constants
      [UpdateNodes example_graph, Frame, UpdateRelationships example_graph, Register None]
      (new_ForceSimulation example_constants example_integrator))) \<and>
   ''collide'' \<in> set (force_names (run example_constants
      [UpdateNodes example_graph, Frame, UpdateRelationships example_graph, Register None]
      (new_ForceSimulation example_constants example_integrator))) \<and>
   ''link'' \<in> set (force_names (run example_constants
      [UpdateNodes example_graph, Frame, UpdateRelationships example_graph, Register None]
      (new_ForceSimulation example_constants example_integrator))) \<and>
   ''link'' \<notin> set (force_names (run example_constants [UpdateNodes example_graph, Frame]
      (new_ForceSimulation example_constants example_integrator)))"
  using
    constructed_at_rest [where K = example_constants and E = example_integrator
      and acts = "[UpdateNodes example_graph, Frame, UpdateRelationships example_graph,
        Register None]"]
    constructed_at_rest [where K = example_constants and E = example_integrator
      and acts = "[UpdateNodes example_graph, Frame]"]
  by simp

section \<open>Seeding on a circle\<close>

lemma place_on_circle:
  "(px (place (0, 0) r k ip))\<^sup>2 + (py (place (0, 0) r k ip))\<^sup>2 = r\<^sup>2"
proof -
  let ?t = "2 * pi * real (fst ip) / real k"
  have "(r * sin ?t)\<^sup>2 + (r * cos ?t)\<^sup>2 = r\<^sup>2 * ((sin ?t)\<^sup>2 + (cos ?t)\<^sup>2)"
    by (simp only: power_mult_distrib distrib_left)
  also have "\<dots> = r\<^sup>2"
    by simp
  finally show ?thesis
    by (simp add: place_def)
qed

lemma circularLayout_on_circle:
  "n \<in> set (circularLayout ns (0, 0) r) \<Longrightarrow> (px n)\<^sup>2 + (py n)\<^sup>2 = r\<^sup>2"
  by (auto simp: circularLayout_def place_on_circle)

lemma nid_place [simp]: "nid (place c r k ip) = nid (snd ip)"
  by (simp add: place_def)

lemma nid_circularLayout: "map nid (circularLayout ns c r) = map nid ns"
proof -
  have "map nid (circularLayout ns c r) = map (nid \<circ> snd) (enumerate 0 ns)"
    by (simp add: circularLayout_def comp_def)
  also have "\<dots> = map nid (map snd (enumerate 0 ns))"
    by (simp only: map_map)
  also have "\<dots> = map nid ns"
    by (simp only: map_snd_enumerate)
  finally show ?thesis .
qed

text \<open>
  C5.  \<open>updateNodes\<close> hands to the engine, and leaves in the graph, the nodes of the graph
  laid out by \<open>circularLayout\<close> around the origin with radius \<open>k * L / (2\<pi>)\<close>, where \<open>k\<close>
  is the number of nodes and \<open>L\<close> is \<open>LINK_DISTANCE\<close>: the same \<open>k\<close> nodes in the same
  order, each at distance of exactly that radius from the origin.  For a graph without
  nodes the radius is 0 and the engine gets the empty node list.  The function is total:
  the source has no \<^verbatim>\<open>throw\<close>, and arithmetic on numbers does not raise.
\<close>

theorem updateNodes_seeds_circle:
  "sim_nodes (simulation (snd (updateNodes K graph s))) =
     circularLayout (nodes graph) (0, 0) (real (length (nodes graph)) * LINK_DISTANCE K / (2 * pi)) \<and>
   nodes (fst (updateNodes K graph s)) = sim_nodes (simulation (snd (updateNodes K graph s))) \<and>
   length (sim_nodes (simulation (snd (updateNodes K graph s)))) = length (nodes graph) \<and>
   map nid (sim_nodes (simulation (snd (updateNodes K graph s)))) = map nid (nodes graph) \<and>
   (\<forall>n \<in> set (sim_nodes (simulation (snd (updateNodes K graph s)))).
      (px n)\<^sup>2 + (py n)\<^sup>2 = (real (length (nodes graph)) * LINK_DISTANCE K / (2 * pi))\<^sup>2) \<and>
   (nodes graph = [] \<longrightarrow>
      real (length (nodes graph)) * LINK_DISTANCE K / (2 * pi) = 0 \<and>
      sim_nodes (simulation (snd (updateNodes K graph s))) = [])"
proof -
  let ?r = "real (length (nodes graph)) * LINK_DISTANCE K / (2 * pi)"
  have seeded: "sim_nodes (simulation (snd (updateNodes K graph s))) =
      circularLayout (nodes graph) (0, 0) ?r"
    by (simp add: nodes_updateNodes mult.commute)
  have shared: "nodes (fst (updateNodes K graph s)) =
      sim_nodes (simulation (snd (updateNodes K graph s)))"
    by (rule nodes_updateNodes)
  have circle: "\<forall>n \<in> set (sim_nodes (simulation (snd (updateNodes K graph s)))).
      (px n)\<^sup>2 + (py n)\<^sup>2 = ?r\<^sup>2"
    unfolding seeded by (auto dest: circularLayout_on_circle)
  have none: "?r = 0 \<and> sim_nodes (simulation (snd (updateNodes K graph s))) = []"
    if "nodes graph = []"
    using that by (simp add: seeded circularLayout_def)
  from shared circle none show ?thesis
    by (simp add: seeded nid_circularLayout)
qed

theorem updateNodes_seeds_circle_witness:
  "length (sim_nodes (simulation (snd
      (updateNodes example_constants example_graph example_simulation)))) = 3 \<and>
   map nid (sim_nodes (simulation (snd
      (updateNodes example_constants example_graph example_simulation)))) = [''A'', ''B'', ''C''] \<and>
   list_all (\<lambda>n. (px n)\<^sup>2 + (py n)\<^sup>2 = (3 * 45 / (2 * pi))\<^sup>2)
     (sim_nodes (simulation (snd
        (updateNodes example_constants example_graph example_simulation)))) \<and>
   nodes empty_graph = [] \<and>
   sim_nodes (simulation (snd (updateNodes example_constants empty_graph example_simulation))) = []"
proof -
  have k: "nodes example_graph = [mk_node ''A'', mk_node ''B'', mk_node ''C'']"
    by (simp add: nodes_def example_graph_def)
  have l: "LINK_DISTANCE example_constants = 45"
    by (simp add: example_constants_def)
  have e: "nodes empty_graph = []"
    by (simp add: nodes_def empty_graph_def)
  note full = updateNodes_seeds_circle
    [where K = example_constants and graph = example_graph and s = example_simulation]
  note none = updateNodes_seeds_circle
    [where K = example_constants and graph = empty_graph and s = example_simulation]
  from full have "length (sim_nodes (simulation (snd
      (updateNodes example_constants example_graph example_simulation)))) =
      length (nodes example_graph)"
    by (elim conjE)
  then have 1: "length (sim_nodes (simulation (snd
      (updateNodes example_constants example_graph example_simulation)))) = 3"
    by (simp add: k)
  from full have "map nid (sim_nodes (simulation (snd
      (updateNodes example_constants example_graph example_simulation)))) =
      map nid (nodes example_graph)"
    by (elim conjE)
  then have 2: "map nid (sim_nodes (simulation (snd
      (updateNodes example_constants example_graph example_simulation)))) = [''A'', ''B'', ''C'']"
    by (simp add: k mk_node_def)
  from full have "\<forall>n \<in> set (sim_nodes (simulation (snd
        (updateNodes example_constants example_graph example_simulation)))).
      (px n)\<^sup>2 + (py n)\<^sup>2 = (real (length (nodes example_graph)) *
        LINK_DISTANCE example_constants / (2 * pi))\<^sup>2"
    by (elim conjE)
  then have 3: "list_all (\<lambda>n. (px n)\<^sup>2 + (py n)\<^sup>2 = (3 * 45 / (2 * pi))\<^sup>2)
     (sim_nodes (simulation (snd
        (updateNodes example_constants example_graph example_simulation))))"
    by (simp add: list_all_iff k l)
  from none e have 4: "sim_nodes (simulation (snd
      (updateNodes example_constants empty_graph example_simulation))) = []"
    by blast
  from 1 2 3 e 4 show ?thesis
    by (intro conjI)
qed

end
